theory Spec2Isabelle
  imports Complex_Main "HOL-Library.Word"
begin

section \<open>Numbers of the C program\<close>

text \<open>
  The estimator computes on C \<^verbatim>\<open>double\<close> values and on \<^verbatim>\<open>uint_t\<close> counters.
  A \<^verbatim>\<open>double\<close> is modelled as a real number or one of the three special values of
  IEEE 754 arithmetic. The special values follow the IEEE rules (a division by zero gives an
  infinity, an undefined operation gives NaN, every comparison with NaN is false); on finite
  operands the operations are the exact real ones, so rounding, overflow and underflow of a
  finite result and the sign of zero are abstracted away. The runs that are evaluated below
  compute on small integers, their quotients by powers of two and the special values only,
  where the program's arithmetic is exact as well.
\<close>

datatype double = Fin real | PInf | NInf | NaN

fun dneg :: "double \<Rightarrow> double" where
  "dneg (Fin a) = Fin (- a)"
| "dneg PInf = NInf"
| "dneg NInf = PInf"
| "dneg NaN = NaN"

fun dadd :: "double \<Rightarrow> double \<Rightarrow> double" where
  "dadd (Fin a) (Fin b) = Fin (a + b)"
| "dadd NaN y = NaN"
| "dadd x NaN = NaN"
| "dadd PInf NInf = NaN"
| "dadd NInf PInf = NaN"
| "dadd PInf y = PInf"
| "dadd x PInf = PInf"
| "dadd NInf y = NInf"
| "dadd x NInf = NInf"

definition dsub :: "double \<Rightarrow> double \<Rightarrow> double" where
  "dsub x y = dadd x (dneg y)"

text \<open>An infinity scaled by a finite factor: NaN for the factor 0, else the sign rule.\<close>

definition scale_inf :: "bool \<Rightarrow> real \<Rightarrow> double" where
  "scale_inf positive a =
     (if a = 0 then NaN else if (0 < a) = positive then PInf else NInf)"

fun dmul :: "double \<Rightarrow> double \<Rightarrow> double" where
  "dmul (Fin a) (Fin b) = Fin (a * b)"
| "dmul NaN y = NaN"
| "dmul x NaN = NaN"
| "dmul (Fin a) PInf = scale_inf True a"
| "dmul (Fin a) NInf = scale_inf False a"
| "dmul PInf (Fin b) = scale_inf True b"
| "dmul NInf (Fin b) = scale_inf False b"
| "dmul PInf PInf = PInf"
| "dmul NInf NInf = PInf"
| "dmul PInf NInf = NInf"
| "dmul NInf PInf = NInf"

fun ddiv :: "double \<Rightarrow> double \<Rightarrow> double" where
  "ddiv (Fin a) (Fin b) = (if b = 0 then scale_inf True a else Fin (a / b))"
| "ddiv NaN y = NaN"
| "ddiv x NaN = NaN"
| "ddiv (Fin a) PInf = Fin 0"
| "ddiv (Fin a) NInf = Fin 0"
| "ddiv PInf (Fin b) = (if 0 \<le> b then PInf else NInf)"
| "ddiv NInf (Fin b) = (if 0 \<le> b then NInf else PInf)"
| "ddiv PInf y = NaN"
| "ddiv NInf y = NaN"

fun dless :: "double \<Rightarrow> double \<Rightarrow> bool" where
  "dless (Fin a) (Fin b) = (a < b)"
| "dless NaN y = False"
| "dless x NaN = False"
| "dless x NInf = False"
| "dless PInf y = False"
| "dless NInf y = True"
| "dless x PInf = True"

definition dle :: "double \<Rightarrow> double \<Rightarrow> bool" where
  "dle x y = (dless x y \<or> (x = y \<and> x \<noteq> NaN))"

fun dexp :: "double \<Rightarrow> double" where
  "dexp (Fin a) = Fin (exp a)"
| "dexp PInf = PInf"
| "dexp NInf = Fin 0"
| "dexp NaN = NaN"

fun dfabs :: "double \<Rightarrow> double" where
  "dfabs (Fin a) = Fin \<bar>a\<bar>"
| "dfabs PInf = PInf"
| "dfabs NInf = PInf"
| "dfabs NaN = NaN"

fun dsqrt :: "double \<Rightarrow> double" where
  "dsqrt (Fin a) = (if a < 0 then NaN else Fin (sqrt a))"
| "dsqrt PInf = PInf"
| "dsqrt NInf = NaN"
| "dsqrt NaN = NaN"

fun is_finite :: "double \<Rightarrow> bool" where
  "is_finite (Fin a) = True"
| "is_finite x = False"

text \<open>
  \<^verbatim>\<open>uint_t\<close> is the program's name for \<^verbatim>\<open>unsigned int\<close> (its declaration, in
  utils.h, is not among the sources): a 32-bit word. The conversion of a counter to
  \<^verbatim>\<open>double\<close> is exact.
\<close>

type_synonym uint_t = "32 word"

definition double_of_nat :: "nat \<Rightarrow> double" where
  "double_of_nat k = Fin (real k)"

definition double_of_uint :: "uint_t \<Rightarrow> double" where
  "double_of_uint w = double_of_nat (unat w)"

text \<open>The sign of a value as the specification's formulas use it.\<close>

definition dsign :: "double \<Rightarrow> double" where
  "dsign x = (if dless x (Fin 0) then Fin (- 1) else if dless (Fin 0) x then Fin 1 else x)"

lemma dneg_dneg: "dneg (dneg x) = x"
  by (cases x) simp_all

section \<open>The digraph and the random source\<close>

text \<open>
  The digraph structure (digraph.h is not among the sources) with the fields the sampler
  reads: the node count, the adjacency structure (as the set of arcs it represents), the
  flat list of all arcs, the snowball zone of every node, the largest zone, the list of
  inner nodes (its length is \<^verbatim>\<open>num_inner_nodes\<close>) and, for every node, the number
  of its neighbours in the preceding wave. The two-path matrices are a function of the arc
  set and are not represented. The arrays are indexed by node, as in C.
\<close>

record digraph =
  num_nodes :: nat
  arcs :: "(nat \<times> nat) set"
  allarcs :: "(nat \<times> nat) list"
  zone :: "nat list"
  max_zone :: nat
  inner_nodes :: "nat list"
  prev_wave_degree :: "nat list"

definition isArc :: "digraph \<Rightarrow> nat \<Rightarrow> nat \<Rightarrow> bool" where
  "isArc g i j = ((i, j) \<in> arcs g)"

definition isArcIgnoreDirection :: "digraph \<Rightarrow> nat \<Rightarrow> nat \<Rightarrow> bool" where
  "isArcIgnoreDirection g i j = (isArc g i j \<or> isArc g j i)"

text \<open>
  Modelled from the spec: \<^verbatim>\<open>insertArc\<close> and \<^verbatim>\<open>removeArc\<close> (digraph.c) are
  missing from the sources. By section 4.1 of the specification they update the adjacency
  (and the two-path counts, a function of it) and the preceding-wave degrees, which always
  satisfy \<^verbatim>\<open>prev_wave_degree[v] = |{u : (u,v) or (v,u) in arcs, zone[u] = zone[v] - 1}|\<close>.
  The flat list of all arcs is not among the things they update.
\<close>

definition count_prev_wave :: "(nat \<times> nat) set \<Rightarrow> nat list \<Rightarrow> nat \<Rightarrow> nat \<Rightarrow> nat" where
  "count_prev_wave A z nn v =
     length (filter (\<lambda>u. ((u, v) \<in> A \<or> (v, u) \<in> A) \<and> z ! u + 1 = z ! v) [0..<nn])"

definition set_arcs :: "digraph \<Rightarrow> (nat \<times> nat) set \<Rightarrow> digraph" where
  "set_arcs g A =
     g\<lparr>arcs := A,
       prev_wave_degree :=
         map (count_prev_wave A (zone g) (num_nodes g)) [0..<length (prev_wave_degree g)]\<rparr>"

definition insertArc :: "digraph \<Rightarrow> nat \<Rightarrow> nat \<Rightarrow> digraph" where
  "insertArc g i j = set_arcs g (insert (i, j) (arcs g))"

definition removeArc :: "digraph \<Rightarrow> nat \<Rightarrow> nat \<Rightarrow> digraph" where
  "removeArc g i j = set_arcs g (arcs g - {(i, j)})"

text \<open>
  The pseudo-random number generator is a supply of draws: the integers that
  \<^verbatim>\<open>int_urand\<close> returns and the reals that \<^verbatim>\<open>urand\<close> returns, in the order in
  which they are asked for. A loop that redraws consumes the supply; when it is used up
  the sampler has not returned (\<open>OutOfDraws\<close>).
\<close>

record rng =
  int_draws :: "nat list"
  unit_draws :: "real list"

datatype error = AssertFailed | OutOfDraws | BadDraw | DivisionByZero

text \<open>
  Modelled from the spec: \<^verbatim>\<open>int_urand\<close> and \<^verbatim>\<open>urand\<close> (utils.c) are missing from
  the sources. \<^verbatim>\<open>int_urand(n)\<close> picks uniformly one of \<open>0 \<dots> n - 1\<close> and
  \<^verbatim>\<open>urand()\<close> draws from U(0,1); a supplied draw outside that range is not a value the
  generator can return (\<open>BadDraw\<close>).
\<close>

definition int_urand :: "nat \<Rightarrow> nat list \<Rightarrow> error + (nat \<times> nat list)" where
  "int_urand bound ds =
     (case ds of [] \<Rightarrow> Inl OutOfDraws
      | r # rs \<Rightarrow> if r < bound then Inr (r, rs) else Inl BadDraw)"

definition urand :: "real list \<Rightarrow> error + (double \<times> real list)" where
  "urand us =
     (case us of [] \<Rightarrow> Inl OutOfDraws
      | u # rest \<Rightarrow> if 0 < u \<and> u < 1 then Inr (Fin u, rest) else Inl BadDraw)"

section \<open>The basic sampler (basicSampler.c)\<close>

text \<open>
  The inner loop \<^verbatim>\<open>do { j = pick(int_urand(bound)); } while (i == j)\<close>; \<open>pick\<close> is the
  identity in the unconditional mode and the lookup in \<^verbatim>\<open>inner_nodes\<close> in the
  conditional mode.
\<close>

fun draw_j :: "(nat \<Rightarrow> nat) \<Rightarrow> nat \<Rightarrow> nat \<Rightarrow> nat list \<Rightarrow> error + (nat \<times> nat list)" where
  "draw_j pick bound i [] = Inl OutOfDraws"
| "draw_j pick bound i (r # rs) =
     (case int_urand bound (r # rs) of
        Inl e \<Rightarrow> Inl e
      | Inr (v, rest) \<Rightarrow> if i = pick v then draw_j pick bound i rs else Inr (pick v, rest))"

lemma int_urand_length: "int_urand bound ds = Inr (v, rest) \<Longrightarrow> length rest < length ds"
  by (auto simp: int_urand_def split: list.splits if_splits)

lemma draw_j_length: "draw_j pick bound i ds = Inr (j, rest) \<Longrightarrow> length rest < length ds"
proof (induction ds)
  case Nil
  then show ?case by simp
next
  case (Cons r rs)
  then show ?case
    by (auto simp: int_urand_def split: if_splits)
qed

text \<open>
  Dyad selection without conditional estimation: the outer \<^verbatim>\<open>do \<dots> while\<close> draws
  \<open>i\<close>, then \<open>j \<noteq> i\<close>, sets \<^verbatim>\<open>isDelete = isArc(g, i, j)\<close> and redraws while
  reciprocity is forbidden and the proposal would add an arc reciprocating \<open>j \<rightarrow> i\<close>.
\<close>

function select_unconditional ::
  "digraph \<Rightarrow> bool \<Rightarrow> nat list \<Rightarrow> error + (nat \<times> nat \<times> bool \<times> nat list)" where
  "select_unconditional g forbidReciprocity ds =
     (case int_urand (num_nodes g) ds of
        Inl e \<Rightarrow> Inl e
      | Inr (i, ds1) \<Rightarrow>
          (case draw_j id (num_nodes g) i ds1 of
             Inl e \<Rightarrow> Inl e
           | Inr (j, ds2) \<Rightarrow>
               if forbidReciprocity \<and> \<not> isArc g i j \<and> isArc g j i
               then select_unconditional g forbidReciprocity ds2
               else Inr (i, j, isArc g i j, ds2)))"
  by pat_completeness auto
termination
  by (relation "measure (\<lambda>(g, f, ds). length ds)")
     (auto dest!: int_urand_length draw_j_length)

text \<open>
  Dyad selection under conditional estimation of a snowball sample. Both nodes are looked
  up in \<^verbatim>\<open>inner_nodes\<close>; the two assertions abort the program when they fail; the
  dyad is redrawn while the zones differ by more than one or while there is a tie between
  the nodes (in either direction) and the node of the later wave has a single tie to its
  preceding wave. The variable \<^verbatim>\<open>isDelete\<close> is not assigned on this path.
\<close>

definition zone_distance :: "digraph \<Rightarrow> nat \<Rightarrow> nat \<Rightarrow> int" where
  "zone_distance g i j = \<bar>int (zone g ! i) - int (zone g ! j)\<bar>"

definition last_tie_to_prev_wave :: "digraph \<Rightarrow> nat \<Rightarrow> nat \<Rightarrow> bool" where
  "last_tie_to_prev_wave g i j =
     (isArcIgnoreDirection g i j \<and>
      ((zone g ! j < zone g ! i \<and> prev_wave_degree g ! i = 1) \<or>
       (zone g ! i < zone g ! j \<and> prev_wave_degree g ! j = 1)))"

function select_conditional :: "digraph \<Rightarrow> nat list \<Rightarrow> error + (nat \<times> nat \<times> nat list)" where
  "select_conditional g ds =
     (case int_urand (length (inner_nodes g)) ds of
        Inl e \<Rightarrow> Inl e
      | Inr (r, ds1) \<Rightarrow>
          (case draw_j (\<lambda>v. inner_nodes g ! v) (length (inner_nodes g)) (inner_nodes g ! r) ds1 of
             Inl e \<Rightarrow> Inl e
           | Inr (j, ds2) \<Rightarrow>
               if \<not> (zone g ! (inner_nodes g ! r) < max_zone g \<and> zone g ! j < max_zone g)
               then Inl AssertFailed
               else if \<not> (zone_distance g (inner_nodes g ! r) j \<le> 1 \<or>
                           \<not> isArcIgnoreDirection g (inner_nodes g ! r) j)
               then Inl AssertFailed
               else if 1 < zone_distance g (inner_nodes g ! r) j \<or>
                       last_tie_to_prev_wave g (inner_nodes g ! r) j
               then select_conditional g ds2
               else Inr (inner_nodes g ! r, j, ds2)))"
  by pat_completeness auto
termination
  by (relation "measure (\<lambda>(g, ds). length ds)")
     (auto dest!: int_urand_length draw_j_length)

declare select_unconditional.simps [simp del] select_conditional.simps [simp del]

text \<open>
  The change statistics functions are the function pointers the caller passes: structural
  ones, nodal attribute ones (each with an attribute index) and dyadic covariate ones. The
  three loops fill \<^verbatim>\<open>changestats[0 \<dots> n-1]\<close> in this order and add
  \<^verbatim>\<open>theta[k] * (isDelete ? -1 : 1) * changestats[k]\<close> to \<^verbatim>\<open>total\<close>.
\<close>

record effects =
  change_stats_funcs :: "(digraph \<Rightarrow> nat \<Rightarrow> nat \<Rightarrow> double) list"
  attr_change_stats_funcs :: "(digraph \<Rightarrow> nat \<Rightarrow> nat \<Rightarrow> nat \<Rightarrow> double) list"
  dyadic_change_stats_funcs :: "(digraph \<Rightarrow> nat \<Rightarrow> nat \<Rightarrow> double) list"
  attr_indices :: "nat list"

definition compute_changestats ::
  "effects \<Rightarrow> nat \<Rightarrow> nat \<Rightarrow> nat \<Rightarrow> digraph \<Rightarrow> nat \<Rightarrow> nat \<Rightarrow> double list" where
  "compute_changestats E n n_attr n_dyadic g i j =
     map (\<lambda>l. (change_stats_funcs E ! l) g i j) [0..<n - n_attr - n_dyadic] @
     map (\<lambda>l. (attr_change_stats_funcs E ! l) g i j (attr_indices E ! l)) [0..<n_attr] @
     map (\<lambda>l. (dyadic_change_stats_funcs E ! l) g i j) [0..<n_dyadic]"

definition move_sign :: "bool \<Rightarrow> double" where
  "move_sign isDelete = (if isDelete then Fin (- 1) else Fin 1)"

definition compute_total :: "double list \<Rightarrow> bool \<Rightarrow> double list \<Rightarrow> double" where
  "compute_total theta isDelete changestats =
     foldl (\<lambda>total k. dadd total (dmul (dmul (theta ! k) (move_sign isDelete)) (changestats ! k)))
       (Fin 0) [0..<length changestats]"

definition accumulate :: "nat \<Rightarrow> double list \<Rightarrow> double list \<Rightarrow> double list" where
  "accumulate n totals changestats = map (\<lambda>l. dadd (totals ! l) (changestats ! l)) [0..<n]"

text \<open>The local variables of \<^verbatim>\<open>basicSampler\<close> that live across its main loop.\<close>

record sampler_state =
  st_g :: digraph
  st_add :: "double list"
  st_del :: "double list"
  st_accepted :: nat
  st_isDelete :: bool
  st_rng :: rng

text \<open>The flags and sizes of one call.\<close>

record sampler_args =
  arg_n :: nat
  arg_n_attr :: nat
  arg_n_dyadic :: nat
  arg_theta :: "double list"
  arg_performMove :: bool
  arg_useConditionalEstimation :: bool
  arg_forbidReciprocity :: bool

definition select_dyad ::
  "sampler_args \<Rightarrow> sampler_state \<Rightarrow> error + (nat \<times> nat \<times> bool \<times> nat list)" where
  "select_dyad a st =
     (if arg_useConditionalEstimation a then
        (if arg_forbidReciprocity a then Inl AssertFailed
         else case select_conditional (st_g st) (int_draws (st_rng st)) of
                Inl e \<Rightarrow> Inl e
              | Inr (i, j, ds) \<Rightarrow> Inr (i, j, st_isDelete st, ds))
      else select_unconditional (st_g st) (arg_forbidReciprocity a) (int_draws (st_rng st)))"

text \<open>
  One iteration of the main loop, after the dyad is chosen: the arc is removed for a delete
  move, the change statistics and \<^verbatim>\<open>total\<close> are computed on that graph, and the move
  is accepted when \<^verbatim>\<open>urand() < exp(total)\<close>.
\<close>

definition decide ::
  "effects \<Rightarrow> sampler_args \<Rightarrow> sampler_state \<Rightarrow> nat \<Rightarrow> nat \<Rightarrow> bool \<Rightarrow> nat list \<Rightarrow>
     error + (bool \<times> sampler_state)" where
  "decide E a st i j isDelete ds =
     (let g1 = (if isDelete then removeArc (st_g st) i j else st_g st);
          changestats = compute_changestats E (arg_n a) (arg_n_attr a) (arg_n_dyadic a) g1 i j;
          total = compute_total (arg_theta a) isDelete changestats
      in case urand (unit_draws (st_rng st)) of
           Inl e \<Rightarrow> Inl e
         | Inr (u, us) \<Rightarrow>
             if dless u (dexp total) then
               Inr (True,
                 \<lparr>st_g = (if arg_performMove a
                          then (if \<not> isDelete then insertArc g1 i j else g1)
                          else (if isDelete then insertArc g1 i j else g1)),
                  st_add = (if isDelete then st_add st
                            else accumulate (arg_n a) (st_add st) changestats),
                  st_del = (if isDelete then accumulate (arg_n a) (st_del st) changestats
                            else st_del st),
                  st_accepted = st_accepted st + 1,
                  st_isDelete = isDelete,
                  st_rng = \<lparr>int_draws = ds, unit_draws = us\<rparr>\<rparr>)
             else
               Inr (False,
                 \<lparr>st_g = (if isDelete then insertArc g1 i j else g1),
                  st_add = st_add st,
                  st_del = st_del st,
                  st_accepted = st_accepted st,
                  st_isDelete = isDelete,
                  st_rng = \<lparr>int_draws = ds, unit_draws = us\<rparr>\<rparr>))"

definition proposal :: "effects \<Rightarrow> sampler_args \<Rightarrow> sampler_state \<Rightarrow> error + (bool \<times> sampler_state)" where
  "proposal E a st =
     (case select_dyad a st of
        Inl e \<Rightarrow> Inl e
      | Inr (i, j, isDelete, ds) \<Rightarrow> decide E a st i j isDelete ds)"

fun sweep :: "effects \<Rightarrow> sampler_args \<Rightarrow> nat \<Rightarrow> sampler_state \<Rightarrow> error + sampler_state" where
  "sweep E a 0 st = Inr st"
| "sweep E a (Suc k) st =
     (case proposal E a st of
        Inl e \<Rightarrow> Inl e
      | Inr (accepted, st') \<Rightarrow> sweep E a k st')"

definition initial_state :: "nat \<Rightarrow> digraph \<Rightarrow> rng \<Rightarrow> sampler_state" where
  "initial_state n g r =
     \<lparr>st_g = g, st_add = replicate n (Fin 0), st_del = replicate n (Fin 0),
      st_accepted = 0, st_isDelete = False, st_rng = r\<rparr>"

text \<open>
  The result of a call: the acceptance rate, the two vectors of summed change statistics,
  and the digraph and the generator as the call leaves them.
\<close>

record sampler_result =
  acceptance_rate :: double
  addChangeStats :: "double list"
  delChangeStats :: "double list"
  res_g :: digraph
  res_rng :: rng

definition basicSampler ::
  "effects \<Rightarrow> sampler_args \<Rightarrow> nat \<Rightarrow> digraph \<Rightarrow> rng \<Rightarrow> error + sampler_result" where
  "basicSampler E a sampler_m g r =
     (case sweep E a sampler_m (initial_state (arg_n a) g r) of
        Inl e \<Rightarrow> Inl e
      | Inr st \<Rightarrow>
          Inr \<lparr>acceptance_rate = ddiv (double_of_nat (st_accepted st)) (double_of_nat sampler_m),
               addChangeStats = st_add st,
               delChangeStats = st_del st,
               res_g = st_g st,
               res_rng = st_rng st\<rparr>)"

section \<open>Algorithm S and Algorithm EE (equilibriumExpectation.c)\<close>

text \<open>
  The two algorithms call the sampler with the digraph, \<^verbatim>\<open>theta\<close>, the number of
  proposals and \<^verbatim>\<open>performMove\<close>; the effect tables and the remaining flags of the call
  are fixed for a whole estimation and are part of the sampler passed here. The IFD
  sampler, \<^verbatim>\<open>arcCorrection\<close> and \<^verbatim>\<open>mean_and_sd\<close> are not among the sources and are
  parameters as well. The IFD sampler also takes \<^verbatim>\<open>ifd_K\<close> and the auxiliary parameter
  and returns \<^verbatim>\<open>dzArc\<close> and the new auxiliary parameter.
\<close>

record externals =
  ext_basicSampler :: "digraph \<Rightarrow> double list \<Rightarrow> nat \<Rightarrow> bool \<Rightarrow> rng \<Rightarrow> error + sampler_result"
  ext_ifdSampler ::
    "digraph \<Rightarrow> double list \<Rightarrow> nat \<Rightarrow> bool \<Rightarrow> double \<Rightarrow> double \<Rightarrow> rng \<Rightarrow>
       error + (sampler_result \<times> double \<times> double)"
  ext_arcCorrection :: "digraph \<Rightarrow> double"
  ext_mean_and_sd :: "double list \<Rightarrow> double \<times> double"

text \<open>
  A row of the theta output file: the first column as printed, the Arc column of the IFD
  sampler when there is one, the theta values and the acceptance rate. A row of the dzA
  output file has no acceptance rate.
\<close>

record theta_row =
  row_t :: int
  row_arc :: "double option"
  row_theta :: "double list"
  row_rate :: double

record dzA_row =
  drow_t :: int
  drow_arc :: "double option"
  drow_dzA :: "double list"

fun for_loop :: "('i \<Rightarrow> 's \<Rightarrow> error + 's) \<Rightarrow> 'i list \<Rightarrow> 's \<Rightarrow> error + 's" where
  "for_loop body [] st = Inr st"
| "for_loop body (i # rest) st =
     (case body i st of
        Inl e \<Rightarrow> Inl e
      | Inr st' \<Rightarrow> for_loop body rest st')"

text \<open>
  The sampler call of both algorithms: the IFD sampler or the basic sampler. The result
  carries \<^verbatim>\<open>dzArc\<close> and the Arc parameter value \<^verbatim>\<open>ifd_aux_param - arc_correction_val\<close>
  for the IFD sampler, and the auxiliary parameter after the call.
\<close>

definition call_sampler ::
  "externals \<Rightarrow> bool \<Rightarrow> double \<Rightarrow> double \<Rightarrow> digraph \<Rightarrow> double list \<Rightarrow> nat \<Rightarrow> bool \<Rightarrow>
     double \<Rightarrow> rng \<Rightarrow> error + (sampler_result \<times> (double \<times> double) option \<times> double)" where
  "call_sampler X useIFDsampler ifd_K arc_correction_val g theta sampler_m performMove aux r =
     (if useIFDsampler then
        (case ext_ifdSampler X g theta sampler_m performMove ifd_K aux r of
           Inl e \<Rightarrow> Inl e
         | Inr (res, dzArc, aux') \<Rightarrow> Inr (res, Some (dzArc, dsub aux' arc_correction_val), aux'))
      else
        (case ext_basicSampler X g theta sampler_m performMove r of
           Inl e \<Rightarrow> Inl e
         | Inr res \<Rightarrow> Inr (res, None, aux)))"

subsection \<open>Algorithm S\<close>

definition S_dzA :: "double list \<Rightarrow> double list \<Rightarrow> nat \<Rightarrow> double" where
  "S_dzA addCS delCS l = dsub (delCS ! l) (addCS ! l)"

definition S_da :: "double \<Rightarrow> double list \<Rightarrow> double list \<Rightarrow> nat \<Rightarrow> double" where
  "S_da ACA addCS delCS l =
     (let sumChangeStats = dadd (addCS ! l) (delCS ! l)
      in if dless sumChangeStats (Fin 0) \<or> dless (Fin 0) sumChangeStats
         then ddiv ACA (dmul sumChangeStats sumChangeStats) else Fin 0)"

definition S_theta_step :: "double \<Rightarrow> double list \<Rightarrow> double list \<Rightarrow> nat \<Rightarrow> double" where
  "S_theta_step ACA addCS delCS l =
     dmul (dmul (dmul (if dless (S_dzA addCS delCS l) (Fin 0) then Fin (- 1) else Fin 1)
                      (S_da ACA addCS delCS l))
                (S_dzA addCS delCS l))
          (S_dzA addCS delCS l)"

record S_state =
  S_theta :: "double list"
  S_D0 :: "double list"
  S_ifd_aux :: double
  S_outfile :: "theta_row list"
  S_g :: digraph
  S_rng :: rng

definition S_iteration ::
  "externals \<Rightarrow> nat \<Rightarrow> uint_t \<Rightarrow> uint_t \<Rightarrow> double \<Rightarrow> bool \<Rightarrow> double \<Rightarrow> double \<Rightarrow> nat \<Rightarrow>
     S_state \<Rightarrow> error + S_state" where
  "S_iteration X n M1 sampler_m ACA useIFDsampler ifd_K arc_correction_val t st =
     (case call_sampler X useIFDsampler ifd_K arc_correction_val (S_g st) (S_theta st)
             (unat sampler_m) False (S_ifd_aux st) (S_rng st) of
        Inl e \<Rightarrow> Inl e
      | Inr (res, ifd_columns, aux) \<Rightarrow>
          (let theta' = map (\<lambda>l. dadd (S_theta st ! l)
                               (S_theta_step ACA (addChangeStats res) (delChangeStats res) l)) [0..<n]
           in Inr \<lparr>S_theta = theta',
                    S_D0 = map (\<lambda>l. dadd (S_D0 st ! l)
                                  (dmul (S_dzA (addChangeStats res) (delChangeStats res) l)
                                        (S_dzA (addChangeStats res) (delChangeStats res) l))) [0..<n],
                    S_ifd_aux = aux,
                    S_outfile = S_outfile st @
                      [\<lparr>row_t = sint (word_of_nat t - M1),
                        row_arc = map_option snd ifd_columns,
                        row_theta = theta',
                        row_rate = acceptance_rate res\<rparr>],
                    S_g = res_g res,
                    S_rng = res_rng res\<rparr>))"

definition S_loop ::
  "externals \<Rightarrow> digraph \<Rightarrow> nat \<Rightarrow> uint_t \<Rightarrow> uint_t \<Rightarrow> double \<Rightarrow> theta_row list \<Rightarrow> bool \<Rightarrow> double \<Rightarrow>
     rng \<Rightarrow> error + S_state" where
  "S_loop X g n M1 sampler_m ACA theta_outfile useIFDsampler ifd_K r =
     for_loop (S_iteration X n M1 sampler_m ACA useIFDsampler ifd_K (ext_arcCorrection X g))
       [0..<unat M1]
       \<lparr>S_theta = replicate n (Fin 0), S_D0 = replicate n (Fin 0), S_ifd_aux = Fin 0,
        S_outfile = theta_outfile, S_g = g, S_rng = r\<rparr>"

text \<open>
  The result of Algorithm S: \<^verbatim>\<open>Dmean[l] = sampler_m / D0[l]\<close> and the state after the
  loop, which holds \<^verbatim>\<open>theta\<close>, \<^verbatim>\<open>D0\<close> and the theta output file.
\<close>

definition algorithm_S ::
  "externals \<Rightarrow> digraph \<Rightarrow> nat \<Rightarrow> uint_t \<Rightarrow> uint_t \<Rightarrow> double \<Rightarrow> theta_row list \<Rightarrow> bool \<Rightarrow> double \<Rightarrow>
     rng \<Rightarrow> error + (double list \<times> S_state)" where
  "algorithm_S X g n M1 sampler_m ACA theta_outfile useIFDsampler ifd_K r =
     (case S_loop X g n M1 sampler_m ACA theta_outfile useIFDsampler ifd_K r of
        Inl e \<Rightarrow> Inl e
      | Inr st \<Rightarrow> Inr (map (\<lambda>l. ddiv (double_of_uint sampler_m) (S_D0 st ! l)) [0..<n], st))"

subsection \<open>Algorithm EE\<close>

definition EE_theta_step :: "double \<Rightarrow> double \<Rightarrow> double \<Rightarrow> double" where
  "EE_theta_step ACA D0_l dzA_l =
     dmul (dmul (dmul (if dless dzA_l (Fin 0) then Fin 1 else Fin (- 1)) (dmul D0_l ACA)) dzA_l)
          dzA_l"

record EE_state =
  EE_theta :: "double list"
  EE_dzA :: "double list"
  EE_D0 :: "double list"
  EE_t :: uint_t
  EE_ifd_aux :: double
  EE_thetamatrix :: "double list list"
  EE_theta_outfile :: "theta_row list"
  EE_dzA_outfile :: "dzA_row list"
  EE_g :: digraph
  EE_rng :: rng

text \<open>
  One iteration of the inner loop. A row is written to both files when
  \<^verbatim>\<open>outputAllSteps || tinner == 0\<close>; its first column is \<open>t\<close> printed as an unsigned
  number. The debugging file \<^verbatim>\<open>Kafile\<close> is always \<^verbatim>\<open>NULL\<close> and is left out.
\<close>

definition EE_inner ::
  "externals \<Rightarrow> nat \<Rightarrow> uint_t \<Rightarrow> double \<Rightarrow> bool \<Rightarrow> bool \<Rightarrow> double \<Rightarrow> double \<Rightarrow> nat \<Rightarrow>
     EE_state \<Rightarrow> error + EE_state" where
  "EE_inner X n sampler_m ACA outputAllSteps useIFDsampler ifd_K arc_correction_val tinner st =
     (case call_sampler X useIFDsampler ifd_K arc_correction_val (EE_g st) (EE_theta st)
             (unat sampler_m) True (EE_ifd_aux st) (EE_rng st) of
        Inl e \<Rightarrow> Inl e
      | Inr (res, ifd_columns, aux) \<Rightarrow>
          (let dzA' = map (\<lambda>l. dadd (EE_dzA st ! l)
                             (dsub (addChangeStats res ! l) (delChangeStats res ! l))) [0..<n];
               theta' = map (\<lambda>l. dadd (EE_theta st ! l)
                               (EE_theta_step ACA (EE_D0 st ! l) (dzA' ! l))) [0..<n];
               emit = (outputAllSteps \<or> tinner = 0)
           in Inr \<lparr>EE_theta = theta',
                    EE_dzA = dzA',
                    EE_D0 = EE_D0 st,
                    EE_t = EE_t st + 1,
                    EE_ifd_aux = aux,
                    EE_thetamatrix =
                      map (\<lambda>l. (EE_thetamatrix st ! l)[tinner := theta' ! l]) [0..<n],
                    EE_theta_outfile = EE_theta_outfile st @
                      (if emit
                       then [\<lparr>row_t = uint (EE_t st), row_arc = map_option snd ifd_columns,
                              row_theta = theta', row_rate = acceptance_rate res\<rparr>]
                       else []),
                    EE_dzA_outfile = EE_dzA_outfile st @
                      (if emit
                       then [\<lparr>drow_t = uint (EE_t st), drow_arc = map_option fst ifd_columns,
                              drow_dzA = dzA'\<rparr>]
                       else []),
                    EE_g = res_g res,
                    EE_rng = res_rng res\<rparr>))"

text \<open>
  After the inner loop, \<^verbatim>\<open>D0[l]\<close> is rescaled from the mean and the standard deviation
  of the theta values of the inner iterations; the assertion \<^verbatim>\<open>theta_sd >= 0\<close> aborts
  the program when it fails.
\<close>

definition adjusted_D0 :: "double \<Rightarrow> double \<Rightarrow> double \<times> double \<Rightarrow> double" where
  "adjusted_D0 compC D0_l mean_sd =
     (let theta_mean = (if dless (dfabs (fst mean_sd)) (Fin (1 / 10)) then Fin (1 / 10)
                        else fst mean_sd);
          theta_sd = snd mean_sd
      in if dless (Fin (1 / 10 ^ 10)) theta_sd
         then dmul D0_l (dsqrt (ddiv compC (ddiv theta_sd (dfabs theta_mean))))
         else D0_l)"

definition adjust_D0 :: "externals \<Rightarrow> nat \<Rightarrow> double \<Rightarrow> EE_state \<Rightarrow> error + EE_state" where
  "adjust_D0 X n compC st =
     (if list_all (\<lambda>l. dle (Fin 0) (snd (ext_mean_and_sd X (EE_thetamatrix st ! l)))) [0..<n]
      then Inr (st\<lparr>EE_D0 :=
                   map (\<lambda>l. adjusted_D0 compC (EE_D0 st ! l)
                              (ext_mean_and_sd X (EE_thetamatrix st ! l))) [0..<n]\<rparr>)
      else Inl AssertFailed)"

definition EE_outer ::
  "externals \<Rightarrow> nat \<Rightarrow> uint_t \<Rightarrow> uint_t \<Rightarrow> double \<Rightarrow> double \<Rightarrow> bool \<Rightarrow> bool \<Rightarrow> double \<Rightarrow> double \<Rightarrow>
     nat \<Rightarrow> EE_state \<Rightarrow> error + EE_state" where
  "EE_outer X n Minner sampler_m ACA compC outputAllSteps useIFDsampler ifd_K
       arc_correction_val touter st =
     (case for_loop (EE_inner X n sampler_m ACA outputAllSteps useIFDsampler ifd_K
                        arc_correction_val) [0..<unat Minner] st of
        Inl e \<Rightarrow> Inl e
      | Inr st' \<Rightarrow> adjust_D0 X n compC st')"

definition EE_initial ::
  "nat \<Rightarrow> uint_t \<Rightarrow> double list \<Rightarrow> double list \<Rightarrow> theta_row list \<Rightarrow> dzA_row list \<Rightarrow> digraph \<Rightarrow>
     rng \<Rightarrow> EE_state" where
  "EE_initial n Minner D0 theta theta_outfile dzA_outfile g r =
     \<lparr>EE_theta = theta, EE_dzA = replicate n (Fin 0), EE_D0 = D0, EE_t = 0,
      EE_ifd_aux = Fin 0, EE_thetamatrix = replicate n (replicate (unat Minner) (Fin 0)),
      EE_theta_outfile = theta_outfile, EE_dzA_outfile = dzA_outfile, EE_g = g, EE_rng = r\<rparr>"

definition algorithm_EE ::
  "externals \<Rightarrow> digraph \<Rightarrow> nat \<Rightarrow> uint_t \<Rightarrow> uint_t \<Rightarrow> uint_t \<Rightarrow> double \<Rightarrow> double \<Rightarrow> double list \<Rightarrow>
     double list \<Rightarrow> theta_row list \<Rightarrow> dzA_row list \<Rightarrow> bool \<Rightarrow> bool \<Rightarrow> double \<Rightarrow> rng \<Rightarrow>
     error + EE_state" where
  "algorithm_EE X g n Mouter Minner sampler_m ACA compC D0 theta theta_outfile dzA_outfile
       outputAllSteps useIFDsampler ifd_K r =
     for_loop (EE_outer X n Minner sampler_m ACA compC outputAllSteps useIFDsampler ifd_K
                 (ext_arcCorrection X g)) [0..<unat Mouter]
       (EE_initial n Minner D0 theta theta_outfile dzA_outfile g r)"

subsection \<open>The two algorithms in sequence\<close>

text \<open>
  \<^verbatim>\<open>M1 = (uint_t)(M1_steps * g->num_nodes / sampler_m)\<close> is computed on unsigned
  32-bit integers; a division by zero stops the program.
\<close>

definition compute_M1 :: "uint_t \<Rightarrow> digraph \<Rightarrow> uint_t \<Rightarrow> uint_t" where
  "compute_M1 M1_steps g sampler_m = (M1_steps * word_of_nat (num_nodes g)) div sampler_m"

definition ee_estimate ::
  "externals \<Rightarrow> digraph \<Rightarrow> nat \<Rightarrow> uint_t \<Rightarrow> uint_t \<Rightarrow> uint_t \<Rightarrow> uint_t \<Rightarrow> double \<Rightarrow> double \<Rightarrow> double \<Rightarrow>
     theta_row list \<Rightarrow> dzA_row list \<Rightarrow> bool \<Rightarrow> bool \<Rightarrow> double \<Rightarrow> rng \<Rightarrow> error + EE_state" where
  "ee_estimate X g n sampler_m M1_steps Mouter Msteps ACA_S ACA_EE compC theta_outfile
       dzA_outfile outputAllSteps useIFDsampler ifd_K r =
     (if sampler_m = 0 then Inl DivisionByZero
      else case algorithm_S X g n (compute_M1 M1_steps g sampler_m) sampler_m ACA_S
                  theta_outfile useIFDsampler ifd_K r of
             Inl e \<Rightarrow> Inl e
           | Inr (Dmean, st) \<Rightarrow>
               algorithm_EE X (S_g st) n Mouter Msteps sampler_m ACA_EE compC Dmean (S_theta st)
                 (S_outfile st) dzA_outfile outputAllSteps useIFDsampler ifd_K (S_rng st))"

text \<open>
  The functions of the repository that the estimation calls and that are not among the
  sources, for an estimation with the basic sampler of this repository: the effect tables,
  the sizes and the two flags of the sampler are those of the configuration.
\<close>

record missing_functions =
  mf_ifdSampler ::
    "digraph \<Rightarrow> double list \<Rightarrow> nat \<Rightarrow> bool \<Rightarrow> double \<Rightarrow> double \<Rightarrow> rng \<Rightarrow>
       error + (sampler_result \<times> double \<times> double)"
  mf_arcCorrection :: "digraph \<Rightarrow> double"
  mf_mean_and_sd :: "double list \<Rightarrow> double \<times> double"

definition basic_externals ::
  "effects \<Rightarrow> nat \<Rightarrow> nat \<Rightarrow> nat \<Rightarrow> bool \<Rightarrow> bool \<Rightarrow> missing_functions \<Rightarrow> externals" where
  "basic_externals E n n_attr n_dyadic useConditionalEstimation forbidReciprocity F =
     \<lparr>ext_basicSampler = (\<lambda>g theta sampler_m performMove r.
          basicSampler E
            \<lparr>arg_n = n, arg_n_attr = n_attr, arg_n_dyadic = n_dyadic, arg_theta = theta,
             arg_performMove = performMove,
             arg_useConditionalEstimation = useConditionalEstimation,
             arg_forbidReciprocity = forbidReciprocity\<rparr> sampler_m g r),
      ext_ifdSampler = mf_ifdSampler F,
      ext_arcCorrection = mf_arcCorrection F,
      ext_mean_and_sd = mf_mean_and_sd F\<rparr>"

section \<open>The estimation driver (do\_estimation)\<close>

text \<open>
  The fields of the configuration structure (configparser.h) that the driver reads. The
  arrays of change statistics functions and of attribute indices are the effect tables of
  the sampler.
\<close>

record config =
  cfg_ACA_S :: double
  cfg_ACA_EE :: double
  cfg_compC :: double
  cfg_samplerSteps :: uint_t
  cfg_Ssteps :: uint_t
  cfg_EEsteps :: uint_t
  cfg_EEinnerSteps :: uint_t
  cfg_outputAllSteps :: bool
  cfg_useIFDsampler :: bool
  cfg_ifd_K :: double
  cfg_outputSimulatedNetwork :: bool
  cfg_arclist_filename :: string
  cfg_theta_file_prefix :: string
  cfg_dzA_file_prefix :: string
  cfg_sim_net_file_prefix :: string
  cfg_zone_filename :: "string option"
  cfg_useConditionalEstimation :: bool
  cfg_forbidReciprocity :: bool
  cfg_num_change_stats_funcs :: nat
  cfg_param_names :: "string list"
  cfg_num_attr_change_stats_funcs :: nat
  cfg_attr_names :: "string list"
  cfg_attr_param_names :: "string list"
  cfg_num_dyadic_change_stats_funcs :: nat
  cfg_dyadic_param_names :: "string list"
  cfg_effects :: effects

text \<open>
  What the driver meets outside the program: whether a file can be opened, the digraph
  that loading the arc list gives, and the results of the functions of digraph.c and
  configparser.c that read the zones and resolve the attribute names (\<open>None\<close> for a
  failure), together with the missing functions of the estimation and the random source.
\<close>

record world =
  w_can_read :: "string \<Rightarrow> bool"
  w_can_write :: "string \<Rightarrow> bool"
  w_load_digraph :: "string \<Rightarrow> digraph"
  w_add_snowball_zones :: "digraph \<Rightarrow> string \<Rightarrow> digraph option"
  w_build_attr_indices :: "config \<Rightarrow> digraph \<Rightarrow> config option"
  w_build_dyadic_indices :: "config \<Rightarrow> digraph \<Rightarrow> (config \<times> digraph) option"
  w_functions :: missing_functions
  w_rng :: rng

datatype message =
    CannotOpenArclist | ZonesFailed | AttributeParameters | DyadicParameters
  | CannotOpenTheta | ArcWithIFD | CannotOpenDzA

text \<open>What the driver does to files and to the error stream, in order.\<close>

datatype io_event =
    Fopen string string
  | Fclose string
  | Stderr message
  | ThetaHeader string "string list"
  | DzAHeader string "string list"
  | ThetaRows string "theta_row list"
  | DzARows string "dzA_row list"
  | WriteDigraph string digraph

text \<open>Decimal output of \<^verbatim>\<open>%d\<close> and the comparison \<^verbatim>\<open>strcasecmp(a, b) == 0\<close>.\<close>

fun decimal :: "nat \<Rightarrow> string" where
  "decimal k =
     (if k < 10 then [''0123456789'' ! k] else decimal (k div 10) @ [''0123456789'' ! (k mod 10)])"

definition print_d :: "int \<Rightarrow> string" where
  "print_d k = (if k < 0 then CHR ''-'' # decimal (nat (- k)) else decimal (nat k))"

definition c_tolower :: "char \<Rightarrow> char" where
  "c_tolower c =
     (case map_of (zip ''ABCDEFGHIJKLMNOPQRSTUVWXYZ'' ''abcdefghijklmnopqrstuvwxyz'') c of
        None \<Rightarrow> c
      | Some l \<Rightarrow> l)"

definition strcasecmp_eq :: "string \<Rightarrow> string \<Rightarrow> bool" where
  "strcasecmp_eq a b = (map c_tolower a = map c_tolower b)"

definition ARC_PARAM_STR :: string where
  "ARC_PARAM_STR = ''Arc''"

definition PATH_MAX :: nat where
  "PATH_MAX = 4096"

text \<open>
  The name of an output file: the prefix copied with \<^verbatim>\<open>strncpy\<close>, then the suffix
  \<^verbatim>\<open>_<tasknum>.txt\<close> (or \<^verbatim>\<open>.net\<close>) appended with \<^verbatim>\<open>strncat\<close>.
\<close>

definition outfilename :: "string \<Rightarrow> uint_t \<Rightarrow> string \<Rightarrow> string" where
  "outfilename prefix tasknum extension =
     (let suffix = ''_'' @ print_d (sint tasknum) @ extension
      in take PATH_MAX prefix @ take (PATH_MAX - length suffix) suffix)"

definition arc_param_listed :: "config \<Rightarrow> bool" where
  "arc_param_listed c =
     list_ex (\<lambda>i. strcasecmp_eq (cfg_param_names c ! i) ARC_PARAM_STR)
       [0..<cfg_num_change_stats_funcs c]"

definition fileheader :: "config \<Rightarrow> string list" where
  "fileheader c =
     [''t''] @ (if cfg_useIFDsampler c then [ARC_PARAM_STR] else []) @
     map (\<lambda>i. cfg_param_names c ! i) [0..<cfg_num_change_stats_funcs c] @
     map (\<lambda>i. cfg_attr_param_names c ! i @ ''_'' @ cfg_attr_names c ! i)
       [0..<cfg_num_attr_change_stats_funcs c] @
     map (\<lambda>i. cfg_dyadic_param_names c ! i) [0..<cfg_num_dyadic_change_stats_funcs c]"

text \<open>
  The driver up to the point where the parameters are counted: the arc list is opened and
  loaded, the zones are added when a zone file is configured, and the attribute and dyadic
  covariate names are resolved (which may change the configuration). Each failure is
  reported and ends the driver with status \<open>-1\<close>.
\<close>

definition load_inputs :: "world \<Rightarrow> config \<Rightarrow> message + (config \<times> digraph)" where
  "load_inputs W c =
     (if \<not> w_can_read W (cfg_arclist_filename c) then Inl CannotOpenArclist
      else case (case cfg_zone_filename c of
                   None \<Rightarrow> Some (w_load_digraph W (cfg_arclist_filename c))
                 | Some z \<Rightarrow> w_add_snowball_zones W (w_load_digraph W (cfg_arclist_filename c)) z) of
             None \<Rightarrow> Inl ZonesFailed
           | Some g \<Rightarrow>
               (case w_build_attr_indices W c g of
                  None \<Rightarrow> Inl AttributeParameters
                | Some c1 \<Rightarrow>
                    (case w_build_dyadic_indices W c1 g of
                       None \<Rightarrow> Inl DyadicParameters
                     | Some (c2, g2) \<Rightarrow> Inr (c2, g2))))"

text \<open>
  The driver once both output files are open: the headers are written, the estimation is
  run and its rows are in the two files, the files are closed and the simulated network is
  written when the configuration asks for it.
\<close>

definition run_and_close ::
  "world \<Rightarrow> config \<Rightarrow> digraph \<Rightarrow> uint_t \<Rightarrow> io_event list \<Rightarrow> error + (int \<times> io_event list)" where
  "run_and_close W c g tasknum events =
     (let theta_outfilename = outfilename (cfg_theta_file_prefix c) tasknum ''.txt'';
          dzA_outfilename = outfilename (cfg_dzA_file_prefix c) tasknum ''.txt'';
          sim_outfilename = outfilename (cfg_sim_net_file_prefix c) tasknum ''.net'';
          n_attr = cfg_num_attr_change_stats_funcs c;
          n_dyadic = cfg_num_dyadic_change_stats_funcs c;
          num_param = cfg_num_change_stats_funcs c + n_attr + n_dyadic
      in case ee_estimate
                (basic_externals (cfg_effects c) num_param n_attr n_dyadic
                   (cfg_useConditionalEstimation c) (cfg_forbidReciprocity c) (w_functions W))
                g num_param (cfg_samplerSteps c) (cfg_Ssteps c) (cfg_EEsteps c)
                (cfg_EEinnerSteps c) (cfg_ACA_S c) (cfg_ACA_EE c) (cfg_compC c) [] []
                (cfg_outputAllSteps c) (cfg_useIFDsampler c) (cfg_ifd_K c) (w_rng W) of
           Inl e \<Rightarrow> Inl e
         | Inr st \<Rightarrow>
             Inr (0,
               events @
               [ThetaHeader theta_outfilename (fileheader c @ [''AcceptanceRate'']),
                DzAHeader dzA_outfilename (fileheader c),
                ThetaRows theta_outfilename (EE_theta_outfile st),
                DzARows dzA_outfilename (EE_dzA_outfile st),
                Fclose theta_outfilename, Fclose dzA_outfilename] @
               (if cfg_outputSimulatedNetwork c
                then [Fopen sim_outfilename ''w'', WriteDigraph sim_outfilename (EE_g st),
                      Fclose sim_outfilename]
                else [])))"

text \<open>
  \<^verbatim>\<open>do_estimation\<close>: the status it returns and what it did to files and to the error
  stream. The theta output file is opened first; then, for the IFD sampler, the names of
  the structural parameters are compared with \<^verbatim>\<open>Arc\<close>; then the dzA output file is
  opened.
\<close>

definition do_estimation :: "world \<Rightarrow> config \<Rightarrow> uint_t \<Rightarrow> error + (int \<times> io_event list)" where
  "do_estimation W c tasknum =
     (case load_inputs W c of
        Inl CannotOpenArclist \<Rightarrow> Inr (- 1, [Stderr CannotOpenArclist])
      | Inl m \<Rightarrow> Inr (- 1, [Fopen (cfg_arclist_filename c) ''r'', Stderr m])
      | Inr (c2, g) \<Rightarrow>
          (let theta_outfilename = outfilename (cfg_theta_file_prefix c2) tasknum ''.txt'';
               dzA_outfilename = outfilename (cfg_dzA_file_prefix c2) tasknum ''.txt'';
               opened = [Fopen (cfg_arclist_filename c) ''r'']
           in if \<not> w_can_write W theta_outfilename
              then Inr (- 1, opened @ [Stderr CannotOpenTheta])
              else if cfg_useIFDsampler c2 \<and> arc_param_listed c2
              then Inr (- 1, opened @ [Fopen theta_outfilename ''w'', Stderr ArcWithIFD])
              else if \<not> w_can_write W dzA_outfilename
              then Inr (- 1, opened @ [Fopen theta_outfilename ''w'', Stderr CannotOpenDzA])
              else run_and_close W c2 g tasknum
                     (opened @ [Fopen theta_outfilename ''w'', Fopen dzA_outfilename ''w''])))"

section \<open>Algorithm S as the specification states it\<close>

text \<open>
  Section 4.5 of the specification: with \<open>dzA_t = del\<Delta> - add\<Delta>\<close> and
  \<open>sum\<Delta> = del\<Delta> + add\<Delta>\<close>, every effect adds \<open>dzA_t\<^sup>2\<close> to \<open>D\<^sub>0\<close> and
  \<open>sign(dzA_t) \<cdot> aca \<cdot> dzA_t\<^sup>2\<close> to \<open>\<theta>\<close>, where \<open>aca\<close> is \<open>ACA_S / sum\<Delta>\<^sup>2\<close> for a
  nonzero \<open>sum\<Delta>\<close> and \<open>0\<close> otherwise; \<open>\<theta>\<close> and \<open>D\<^sub>0\<close> start at \<open>0\<close>, the sampler
  does not perform its moves, and \<open>Dmean = m / D\<^sub>0\<close> is returned.
\<close>

definition spec_S_step :: "double \<Rightarrow> double \<Rightarrow> double \<Rightarrow> double" where
  "spec_S_step ACA_S addD delD =
     (let dzA_t = dsub delD addD;
          sumD = dadd delD addD;
          aca = (if sumD \<noteq> Fin 0 then ddiv ACA_S (dmul sumD sumD) else Fin 0)
      in dmul (dmul (dsign dzA_t) aca) (dmul dzA_t dzA_t))"

type_synonym spec_S_state = "double list \<times> double list \<times> double \<times> digraph \<times> rng"

text \<open>
  One iteration: the sampler is called on the current digraph and theta without performing
  its moves, and every effect is updated from the change statistics it returns.
\<close>

definition spec_S_body ::
  "externals \<Rightarrow> nat \<Rightarrow> nat \<Rightarrow> double \<Rightarrow> bool \<Rightarrow> double \<Rightarrow> double \<Rightarrow> spec_S_state \<Rightarrow>
     error + spec_S_state" where
  "spec_S_body X n m ACA_S useIFDsampler ifd_K corr s =
     (case s of (theta, D0, aux, g, r) \<Rightarrow>
        (case call_sampler X useIFDsampler ifd_K corr g theta m False aux r of
           Inl e \<Rightarrow> Inl e
         | Inr (res, ifd_columns, aux') \<Rightarrow>
             Inr (map (\<lambda>k. dadd (theta ! k)
                         (spec_S_step ACA_S (addChangeStats res ! k) (delChangeStats res ! k)))
                    [0..<n],
                  map (\<lambda>k. dadd (D0 ! k)
                         (dmul (dsub (delChangeStats res ! k) (addChangeStats res ! k))
                               (dsub (delChangeStats res ! k) (addChangeStats res ! k))))
                    [0..<n],
                  aux', res_g res, res_rng res)))"

text \<open>
  The values after \<open>t\<close> iterations, by recursion on \<open>t\<close>: theta and \<open>D\<^sub>0\<close> are 0 before
  the first iteration, and iteration \<open>t + 1\<close> updates the values that \<open>t\<close> iterations
  have left. A failure of the sampler in any iteration is the failure of the algorithm.
\<close>

fun spec_S_iterations ::
  "externals \<Rightarrow> digraph \<Rightarrow> nat \<Rightarrow> nat \<Rightarrow> double \<Rightarrow> bool \<Rightarrow> double \<Rightarrow> rng \<Rightarrow> nat \<Rightarrow>
     error + spec_S_state" where
  "spec_S_iterations X g n m ACA_S useIFDsampler ifd_K r 0 =
     Inr (replicate n (Fin 0), replicate n (Fin 0), Fin 0, g, r)"
| "spec_S_iterations X g n m ACA_S useIFDsampler ifd_K r (Suc t) =
     (case spec_S_iterations X g n m ACA_S useIFDsampler ifd_K r t of
        Inl e \<Rightarrow> Inl e
      | Inr s \<Rightarrow> spec_S_body X n m ACA_S useIFDsampler ifd_K (ext_arcCorrection X g) s)"

definition spec_algorithm_S ::
  "externals \<Rightarrow> digraph \<Rightarrow> nat \<Rightarrow> nat \<Rightarrow> nat \<Rightarrow> double \<Rightarrow> bool \<Rightarrow> double \<Rightarrow> rng \<Rightarrow>
     error + (double list \<times> double list \<times> double list \<times> digraph \<times> rng)" where
  "spec_algorithm_S X g n M1 m ACA_S useIFDsampler ifd_K r =
     (case spec_S_iterations X g n m ACA_S useIFDsampler ifd_K r M1 of
        Inl e \<Rightarrow> Inl e
      | Inr (theta, D0, aux, g', r') \<Rightarrow>
          Inr (theta, D0, map (\<lambda>k. ddiv (double_of_nat m) (D0 ! k)) [0..<n], g', r'))"

text \<open>What a state of the loop of \<^verbatim>\<open>algorithm_S\<close> holds besides the output file.\<close>

definition S_abs :: "S_state \<Rightarrow> spec_S_state" where
  "S_abs st = (S_theta st, S_D0 st, S_ifd_aux st, S_g st, S_rng st)"

section \<open>Algorithm EE as the specification states it\<close>

text \<open>
  Section 4.6 of the specification: after \<open>dzA[k] += add\<Delta>[k] - del\<Delta>[k]\<close>, the step is
  \<open>D\<^sub>0[k] \<cdot> ACA_EE\<close> and \<open>\<theta>[k] += - sign(dzA[k]) \<cdot> step \<cdot> dzA[k]\<^sup>2\<close>.
\<close>

definition spec_EE_step :: "double \<Rightarrow> double \<Rightarrow> double \<Rightarrow> double" where
  "spec_EE_step ACA_EE D0_k dzA_k =
     (let step = dmul D0_k ACA_EE
      in dmul (dmul (dneg (dsign dzA_k)) step) (dmul dzA_k dzA_k))"

section \<open>The acceptance decision of the sampler, in closed form\<close>

text \<open>
  The value of \<open>total\<close> of a proposal for the dyad \<open>(i, j)\<close> of the digraph \<open>g\<close> as
  section 4.4 of the specification states it: the proposal is a delete when \<open>i \<rightarrow> j\<close> is
  an arc and an add otherwise; the change statistics \<open>\<Delta>\<close> are computed on the digraph
  without the arc; \<open>s\<close> is \<open>-1\<close> for a delete and \<open>+1\<close> for an add; and \<open>total\<close> is the
  sum of \<open>\<theta>[k] \<cdot> s \<cdot> \<Delta>[k]\<close> over the effects, added up in double arithmetic in the order
  of the effects.
\<close>

definition proposal_total :: "effects \<Rightarrow> sampler_args \<Rightarrow> digraph \<Rightarrow> nat \<Rightarrow> nat \<Rightarrow> double" where
  "proposal_total E a g i j =
     (let delete = isArc g i j;
          s = (if delete then Fin (- 1) else Fin 1);
          delta = compute_changestats E (arg_n a) (arg_n_attr a) (arg_n_dyadic a)
                    (if delete then removeArc g i j else g) i j
      in foldl (\<lambda>total k. dadd total (dmul (dmul (arg_theta a ! k) s) (delta ! k)))
           (Fin 0) [0..<length delta])"

section \<open>The effect of a proposal on the digraph\<close>

text \<open>The arc set after one proposal, when a delete move is proposed for an arc only.\<close>

definition arcs_after :: "sampler_args \<Rightarrow> digraph \<Rightarrow> nat \<Rightarrow> nat \<Rightarrow> bool \<Rightarrow> bool \<Rightarrow> (nat \<times> nat) set" where
  "arcs_after a g i j isDelete accepted =
     (if accepted \<and> arg_performMove a
      then (if isDelete then arcs g - {(i, j)} else insert (i, j) (arcs g))
      else arcs g)"

text \<open>The flag is never set under conditional estimation.\<close>

definition flag_invariant :: "sampler_args \<Rightarrow> sampler_state \<Rightarrow> bool" where
  "flag_invariant a st = (if arg_useConditionalEstimation a then \<not> st_isDelete st else True)"

section \<open>The sign of the summed change statistics\<close>

text \<open>Every change statistic that the effect tables compute is at least 0 (and a number).\<close>

definition nonnegative_effects :: "effects \<Rightarrow> sampler_args \<Rightarrow> bool" where
  "nonnegative_effects E a =
     (\<forall>g i j k. k < arg_n a \<longrightarrow>
        dle (Fin 0)
          (compute_changestats E (arg_n a) (arg_n_attr a) (arg_n_dyadic a) g i j ! k))"

text \<open>The two vectors of sums of a state of the main loop hold no negative value.\<close>

definition sums_nonnegative :: "nat \<Rightarrow> sampler_state \<Rightarrow> bool" where
  "sums_nonnegative n st =
     (\<forall>k<n. dle (Fin 0) (st_add st ! k) \<and> dle (Fin 0) (st_del st ! k))"

section \<open>Conditional estimation: the dyads a sweep may change\<close>

text \<open>A node of an inner wave: listed in \<^verbatim>\<open>inner_nodes\<close>, with a zone below the largest.\<close>

definition inner_node :: "digraph \<Rightarrow> nat \<Rightarrow> bool" where
  "inner_node g v = (v \<in> set (inner_nodes g) \<and> zone g ! v < max_zone g)"

text \<open>
  The digraph of a state of the main loop has the zones and inner nodes of the digraph \<open>g\<close>
  of the call, the flag \<^verbatim>\<open>isDelete\<close> is not set, and every dyad whose arc it has and
  \<open>g\<close> has not (or the reverse) joins two distinct inner nodes of the same or of adjacent
  zones.
\<close>

definition changed_dyads_inner :: "digraph \<Rightarrow> digraph \<Rightarrow> bool" where
  "changed_dyads_inner g g' =
     (\<forall>x y. ((x, y) \<in> arcs g') \<noteq> ((x, y) \<in> arcs g) \<longrightarrow>
        inner_node g x \<and> inner_node g y \<and> x \<noteq> y \<and> zone_distance g x y \<le> 1)"

definition conditional_invariant :: "digraph \<Rightarrow> sampler_state \<Rightarrow> bool" where
  "conditional_invariant g st =
     (zone (st_g st) = zone g \<and> max_zone (st_g st) = max_zone g \<and>
      inner_nodes (st_g st) = inner_nodes g \<and> \<not> st_isDelete st \<and>
      changed_dyads_inner g (st_g st))"

section \<open>The first column of the theta output file\<close>

text \<open>
  The first columns of the rows of Algorithm EE when the counter does not wrap: every
  inner iteration writes a row when \<^verbatim>\<open>outputAllSteps\<close> is set, and only the first one of
  each outer iteration otherwise.
\<close>

definition EE_row_indices :: "bool \<Rightarrow> nat \<Rightarrow> nat \<Rightarrow> int list" where
  "EE_row_indices outputAllSteps Mouter Minner =
     (if outputAllSteps then map int [0..<Mouter * Minner]
      else if Minner = 0 then []
      else map (\<lambda>touter. int (touter * Minner)) [0..<Mouter])"

text \<open>
  The first columns, as the program computes them on 32-bit counters, of the rows that the
  inner loop writes from the counter value \<open>t\<^sub>0\<close> in its first \<open>i\<close> iterations, and of
  the rows of the first outer iterations.
\<close>

definition inner_rows :: "bool \<Rightarrow> uint_t \<Rightarrow> nat \<Rightarrow> int list" where
  "inner_rows outputAllSteps t0 i =
     (if outputAllSteps then map (\<lambda>c. uint (t0 + word_of_nat c)) [0..<i]
      else if 0 < i then [uint t0] else [])"

definition outer_rows :: "bool \<Rightarrow> nat \<Rightarrow> nat \<Rightarrow> int list" where
  "outer_rows outputAllSteps Minner touter =
     (if outputAllSteps then map (\<lambda>c. uint (word_of_nat c :: uint_t)) [0..<touter * Minner]
      else if Minner = 0 then []
      else map (\<lambda>k. uint (word_of_nat (k * Minner) :: uint_t)) [0..<touter])"

section \<open>Concrete inputs\<close>

text \<open>
  A digraph of two nodes with the single arc \<open>0 \<rightarrow> 1\<close>, the change statistic of the Arc
  effect (adding an arc changes the arc count by one), and instances of the functions the
  sources do not contain: no IFD sampler is run on these inputs, and the mean and standard
  deviation are reported as \<open>0\<close>, so that \<^verbatim>\<open>D0\<close> is not rescaled.
\<close>

definition changeArc :: "digraph \<Rightarrow> nat \<Rightarrow> nat \<Rightarrow> double" where
  "changeArc g i j = Fin 1"

definition example_graph :: digraph where
  "example_graph =
     \<lparr>num_nodes = 2, arcs = {(0, 1)}, allarcs = [(0, 1)], zone = [0, 0], max_zone = 0,
      inner_nodes = [], prev_wave_degree = [0, 0]\<rparr>"

definition example_effects :: effects where
  "example_effects =
     \<lparr>change_stats_funcs = [changeArc], attr_change_stats_funcs = [],
      dyadic_change_stats_funcs = [], attr_indices = []\<rparr>"

definition example_functions :: missing_functions where
  "example_functions =
     \<lparr>mf_ifdSampler = (\<lambda>g theta sampler_m performMove ifd_K aux r. Inl AssertFailed),
      mf_arcCorrection = (\<lambda>g. Fin 0),
      mf_mean_and_sd = (\<lambda>xs. (Fin 0, Fin 0))\<rparr>"

text \<open>A configuration that lists \<^verbatim>\<open>arc\<close> as a structural parameter and selects the IFD sampler.\<close>

definition example_config :: config where
  "example_config =
     \<lparr>cfg_ACA_S = Fin (1 / 10), cfg_ACA_EE = Fin (1 / 10 ^ 9), cfg_compC = Fin (1 / 100),
      cfg_samplerSteps = 2, cfg_Ssteps = 1, cfg_EEsteps = 1, cfg_EEinnerSteps = 1,
      cfg_outputAllSteps = False, cfg_useIFDsampler = True, cfg_ifd_K = Fin (1 / 10),
      cfg_outputSimulatedNetwork = False, cfg_arclist_filename = ''arcs.net'',
      cfg_theta_file_prefix = ''theta'', cfg_dzA_file_prefix = ''dzA'',
      cfg_sim_net_file_prefix = ''sim'', cfg_zone_filename = None,
      cfg_useConditionalEstimation = False, cfg_forbidReciprocity = False,
      cfg_num_change_stats_funcs = 1, cfg_param_names = [''arc''],
      cfg_num_attr_change_stats_funcs = 0, cfg_attr_names = [], cfg_attr_param_names = [],
      cfg_num_dyadic_change_stats_funcs = 0, cfg_dyadic_param_names = [],
      cfg_effects = example_effects\<rparr>"

text \<open>A world in which every file can be opened and every name is resolved.\<close>

definition example_world :: world where
  "example_world =
     \<lparr>w_can_read = (\<lambda>f. True), w_can_write = (\<lambda>f. True),
      w_load_digraph = (\<lambda>f. example_graph),
      w_add_snowball_zones = (\<lambda>g f. Some g),
      w_build_attr_indices = (\<lambda>c g. Some c),
      w_build_dyadic_indices = (\<lambda>c g. Some (c, g)),
      w_functions = example_functions,
      w_rng = \<lparr>int_draws = [], unit_draws = []\<rparr>\<rparr>"

text \<open>
  The samplers of an estimation with the single effect Arc, without conditional estimation
  and with reciprocity allowed.
\<close>

definition example_externals :: externals where
  "example_externals = basic_externals example_effects 1 0 0 False False example_functions"

text \<open>The arguments of a call of the sampler with the single effect Arc.\<close>

definition example_args :: "double list \<Rightarrow> bool \<Rightarrow> sampler_args" where
  "example_args theta performMove =
     \<lparr>arg_n = 1, arg_n_attr = 0, arg_n_dyadic = 0, arg_theta = theta,
      arg_performMove = performMove, arg_useConditionalEstimation = False,
      arg_forbidReciprocity = False\<rparr>"

text \<open>
  The change statistic of the Sink effect, the number of nodes with incoming and without
  outgoing arcs: adding \<open>i \<rightarrow> j\<close> removes the sink \<open>i\<close> and makes an isolated \<open>j\<close> a sink.
\<close>

definition has_out :: "digraph \<Rightarrow> nat \<Rightarrow> bool" where
  "has_out g v = list_ex (\<lambda>w. (v, w) \<in> arcs g) [0..<num_nodes g]"

definition has_in :: "digraph \<Rightarrow> nat \<Rightarrow> bool" where
  "has_in g v = list_ex (\<lambda>w. (w, v) \<in> arcs g) [0..<num_nodes g]"

definition changeSink :: "digraph \<Rightarrow> nat \<Rightarrow> nat \<Rightarrow> double" where
  "changeSink g i j =
     Fin ((if \<not> has_out g i \<and> has_in g i then - 1 else 0) +
          (if \<not> has_out g j \<and> \<not> has_in g j then 1 else 0))"

definition sink_effects :: effects where
  "sink_effects =
     \<lparr>change_stats_funcs = [changeSink], attr_change_stats_funcs = [],
      dyadic_change_stats_funcs = [], attr_indices = []\<rparr>"

text \<open>
  A snowball sample of three nodes: the nodes 0 and 1 in zone 0, the node 2 in zone 1 (the
  outermost wave), tied to node 0.
\<close>

definition snowball_graph :: digraph where
  "snowball_graph =
     \<lparr>num_nodes = 3, arcs = {(0, 2)}, allarcs = [(0, 2)], zone = [0, 0, 1], max_zone = 1,
      inner_nodes = [0, 1], prev_wave_degree = [0, 0, 1]\<rparr>"

definition snowball_args :: sampler_args where
  "snowball_args = (example_args [Fin 0] True)\<lparr>arg_useConditionalEstimation := True\<rparr>"

text \<open>
  The first columns of the theta output file of an estimation on the two-node digraph with
  one proposal per sampler call, \<open>M\<^sub>1 = 1 \<cdot> 2 / 1 = 2\<close> iterations of Algorithm S and two
  outer iterations of two inner iterations of Algorithm EE; with both step multipliers 0,
  theta stays 0 and every proposal is accepted.
\<close>

definition example_rows :: "bool \<Rightarrow> error + int list" where
  "example_rows outputAllSteps =
     map_sum id (\<lambda>st. map row_t (EE_theta_outfile st))
       (ee_estimate example_externals example_graph 1 1 1 2 2 (Fin 0) (Fin 0) (Fin (1 / 100))
          [] [] outputAllSteps False (Fin 0)
          \<lparr>int_draws = [0, 1, 0, 1, 0, 1, 0, 1, 0, 1, 0, 1],
            unit_draws = [1 / 2, 1 / 2, 1 / 2, 1 / 2, 1 / 2, 1 / 2]\<rparr>)"

section \<open>The driver: the Arc parameter with the IFD sampler\<close>

lemma example_theta_outfilename: "outfilename ''theta'' 0 ''.txt'' = ''theta_0.txt''"
  by (simp add: outfilename_def print_d_def PATH_MAX_def)

lemma example_arc_param_listed: "arc_param_listed example_config"
  by (simp add: arc_param_listed_def example_config_def strcasecmp_eq_def c_tolower_def
      ARC_PARAM_STR_def)

lemma example_load_inputs:
  "load_inputs example_world example_config = Inr (example_config, example_graph)"
  by (simp add: load_inputs_def example_world_def example_config_def)

text \<open>
  Claim C4, as the code has it. When the inputs load, the configuration selects the IFD
  sampler and a structural parameter is named Arc (in any case of letters), the driver
  returns \<open>-1\<close> after reporting the error; the dzA output file is never opened, no header
  and no row is written and the estimation is not run. The theta output file, however, is
  opened for writing before the parameter names are examined (unless it cannot be opened,
  which is reported instead).
\<close>

theorem do_estimation_arc_with_ifd:
  assumes "load_inputs W c = Inr (c2, g)"
    and "cfg_useIFDsampler c2"
    and "arc_param_listed c2"
  shows "do_estimation W c tasknum =
           Inr (- 1, Fopen (cfg_arclist_filename c) ''r'' #
                  (if w_can_write W (outfilename (cfg_theta_file_prefix c2) tasknum ''.txt'')
                   then [Fopen (outfilename (cfg_theta_file_prefix c2) tasknum ''.txt'') ''w'',
                         Stderr ArcWithIFD]
                   else [Stderr CannotOpenTheta]))"
  using assms by (simp add: do_estimation_def Let_def)

theorem do_estimation_arc_with_ifd_witness:
  "do_estimation example_world example_config 0 =
     Inr (- 1, [Fopen (cfg_arclist_filename example_config) ''r'',
                Fopen (outfilename (cfg_theta_file_prefix example_config) 0 ''.txt'') ''w'',
                Stderr ArcWithIFD])"
  using do_estimation_arc_with_ifd [OF example_load_inputs, of 0] example_arc_param_listed
  by (simp add: example_config_def example_world_def)

text \<open>
  The claim as stated fails: on the example configuration the driver returns \<open>-1\<close>, but
  the theta output file \<^verbatim>\<open>theta_0.txt\<close> has been opened for writing.
\<close>

theorem do_estimation_opens_theta_file:
  "do_estimation example_world example_config 0 =
     Inr (- 1, [Fopen ''arcs.net'' ''r'', Fopen ''theta_0.txt'' ''w'', Stderr ArcWithIFD])"
  by (simp add: do_estimation_def example_load_inputs example_arc_param_listed Let_def)
    (simp add: example_config_def example_world_def example_theta_outfilename)

section \<open>Algorithm S: the update of theta and of the derivative estimate\<close>

lemma dadd_commute: "dadd a b = dadd b a"
  by (cases a; cases b) simp_all

lemma S_theta_step_spec:
  "S_theta_step ACA addCS delCS l = spec_S_step ACA (addCS ! l) (delCS ! l)"
  unfolding S_theta_step_def spec_S_step_def S_dzA_def S_da_def dsub_def dsign_def Let_def
    dadd_commute [of "delCS ! l" "addCS ! l"]
  by (cases ACA; cases "addCS ! l"; cases "delCS ! l")
    (auto simp: scale_inf_def mult.assoc split: if_splits)

lemma for_loop_append:
  "for_loop body (xs @ ys) st =
     (case for_loop body xs st of Inl e \<Rightarrow> Inl e | Inr st' \<Rightarrow> for_loop body ys st')"
  by (induction xs arbitrary: st) (auto split: sum.splits)

lemma for_loop_upt_Suc:
  "for_loop body [0..<Suc t] st =
     (case for_loop body [0..<t] st of Inl e \<Rightarrow> Inl e | Inr st' \<Rightarrow> body t st')"
  by (simp add: for_loop_append split: sum.split)

lemma S_iteration_abs:
  "map_sum id S_abs (S_iteration X n M1 m ACA useIFD K corr t st) =
     spec_S_body X n (unat m) ACA useIFD K corr (S_abs st)"
  by (simp add: S_iteration_def spec_S_body_def S_abs_def S_theta_step_spec S_dzA_def Let_def
      split: sum.split prod.split)

text \<open>
  The loop of \<^verbatim>\<open>algorithm_S\<close>, run for \<open>t\<close> iterations, leaves the values that the
  specification gives for \<open>t\<close> iterations.
\<close>

lemma S_loop_iterations:
  "map_sum id S_abs
     (for_loop (S_iteration X n M1 m ACA useIFD K (ext_arcCorrection X g)) [0..<t]
        \<lparr>S_theta = replicate n (Fin 0), S_D0 = replicate n (Fin 0), S_ifd_aux = Fin 0,
         S_outfile = out, S_g = g, S_rng = r\<rparr>) =
   spec_S_iterations X g n (unat m) ACA useIFD K r t"
proof (induction t)
  case 0
  show ?case by (simp add: S_abs_def)
next
  case (Suc t)
  let ?loop = "for_loop (S_iteration X n M1 m ACA useIFD K (ext_arcCorrection X g)) [0..<t]
        \<lparr>S_theta = replicate n (Fin 0), S_D0 = replicate n (Fin 0), S_ifd_aux = Fin 0,
         S_outfile = out, S_g = g, S_rng = r\<rparr>"
  show ?case
  proof (cases ?loop)
    case (Inl e)
    with Suc [symmetric] show ?thesis
      by (simp only: for_loop_upt_Suc spec_S_iterations.simps) simp
  next
    case (Inr st)
    with Suc [symmetric] have spec: "spec_S_iterations X g n (unat m) ACA useIFD K r t = Inr (S_abs st)"
      by simp
    from Inr have "map_sum id S_abs
        (for_loop (S_iteration X n M1 m ACA useIFD K (ext_arcCorrection X g)) [0..<Suc t]
          \<lparr>S_theta = replicate n (Fin 0), S_D0 = replicate n (Fin 0), S_ifd_aux = Fin 0,
           S_outfile = out, S_g = g, S_rng = r\<rparr>) =
        map_sum id S_abs (S_iteration X n M1 m ACA useIFD K (ext_arcCorrection X g) t st)"
      by (simp only: for_loop_upt_Suc sum.case)
    also have "\<dots> = spec_S_body X n (unat m) ACA useIFD K (ext_arcCorrection X g) (S_abs st)"
      by (rule S_iteration_abs)
    also from spec have "\<dots> = spec_S_iterations X g n (unat m) ACA useIFD K r (Suc t)"
      by simp
    finally show ?thesis .
  qed
qed

text \<open>
  Claim C2. For every sampler, digraph, random source and every value of the arguments,
  \<^verbatim>\<open>algorithm_S\<close> fails exactly when the algorithm of the specification fails, and
  otherwise its theta, its \<^verbatim>\<open>D0\<close>, the \<^verbatim>\<open>Dmean\<close> it returns, the digraph and the random
  source are those of the specification after \<open>M\<^sub>1\<close> iterations: theta and \<^verbatim>\<open>D0\<close> start
  at 0, each of the \<open>M\<^sub>1\<close> iterations calls the sampler once and adds \<open>dzA_t\<^sup>2\<close> to
  \<^verbatim>\<open>D0\<close> and \<open>sign(dzA_t) \<cdot> aca \<cdot> dzA_t\<^sup>2\<close> to theta for \<open>dzA_t = del - add\<close>, and
  \<^verbatim>\<open>Dmean[k] = sampler_m / D0[k]\<close>.
\<close>

theorem algorithm_S_refines_spec:
  "map_sum id (\<lambda>(Dmean, st). (S_theta st, S_D0 st, Dmean, S_g st, S_rng st))
       (algorithm_S X g n M1 sampler_m ACA theta_outfile useIFDsampler ifd_K r) =
     spec_algorithm_S X g n (unat M1) (unat sampler_m) ACA useIFDsampler ifd_K r"
proof -
  let ?loop = "for_loop (S_iteration X n M1 sampler_m ACA useIFDsampler ifd_K
        (ext_arcCorrection X g)) [0..<unat M1]
      \<lparr>S_theta = replicate n (Fin 0), S_D0 = replicate n (Fin 0), S_ifd_aux = Fin 0,
        S_outfile = theta_outfile, S_g = g, S_rng = r\<rparr>"
  have sim: "map_sum id S_abs ?loop =
      spec_S_iterations X g n (unat sampler_m) ACA useIFDsampler ifd_K r (unat M1)"
    by (rule S_loop_iterations)
  show ?thesis
  proof (cases ?loop)
    case (Inl e)
    with sim [symmetric] show ?thesis
      by (simp add: algorithm_S_def S_loop_def spec_algorithm_S_def S_abs_def)
  next
    case (Inr st)
    with sim [symmetric] show ?thesis
      by (simp add: algorithm_S_def S_loop_def spec_algorithm_S_def S_abs_def double_of_uint_def)
  qed
qed

section \<open>Algorithm S: the derivative estimate it returns\<close>

lemmas run_defs = select_unconditional.simps select_conditional.simps proposal_def
  select_dyad_def initial_state_def decide_def urand_def
  accumulate_def Let_def int_urand_def isArc_def compute_changestats_def compute_total_def
  move_sign_def insertArc_def removeArc_def set_arcs_def count_prev_wave_def basicSampler_def

lemmas S_defs = algorithm_S_def S_loop_def S_iteration_def call_sampler_def
  example_externals_def basic_externals_def S_theta_step_def S_dzA_def S_da_def
  double_of_uint_def double_of_nat_def dsub_def scale_inf_def

lemmas example_defs = example_graph_def example_effects_def changeArc_def example_functions_def

lemma sweep_numeral:
  "sweep E a (numeral k) st =
     (case proposal E a st of
        Inl e \<Rightarrow> Inl e
      | Inr (accepted, st') \<Rightarrow> sweep E a (pred_numeral k) st')"
  by (simp add: numeral_eq_Suc)

lemma run2:
  "algorithm_S example_externals example_graph 1 1 2 (Fin (1 / 8)) [] False (Fin 0)
     \<lparr>int_draws = [0, 1, 1, 0], unit_draws = [1 / 2, 1 / 2]\<rparr> =
   Inr ([PInf],
     \<lparr>S_theta = [Fin 0], S_D0 = [Fin 0], S_ifd_aux = Fin 0,
      S_outfile = [\<lparr>row_t = - 1, row_arc = None, row_theta = [Fin 0], row_rate = Fin 1\<rparr>],
      S_g = example_graph, S_rng = \<lparr>int_draws = [], unit_draws = []\<rparr>\<rparr>)"
  by (simp add: S_defs run_defs example_defs sweep_numeral)

lemma for_loop_invariant:
  assumes "for_loop body xs st = Inr st'"
    and "P st"
    and "\<And>i s s'. body i s = Inr s' \<Longrightarrow> P s \<Longrightarrow> P s'"
  shows "P st'"
  using assms(1,2)
proof (induction xs arbitrary: st)
  case Nil
  then show ?case by simp
next
  case (Cons i rest)
  then show ?case
    by (auto split: sum.splits intro: assms(3))
qed

lemma dmul_self_not_negative: "\<not> dless (dmul d d) (Fin 0)"
  by (cases d) simp_all

lemma dadd_not_negative:
  "\<not> dless a (Fin 0) \<Longrightarrow> \<not> dless b (Fin 0) \<Longrightarrow> \<not> dless (dadd a b) (Fin 0)"
  by (cases a; cases b) simp_all

lemma S_iteration_D0_not_negative:
  assumes "S_iteration X n M1 m ACA useIFD K corr t st = Inr st'"
    and "\<forall>k<n. \<not> dless (S_D0 st ! k) (Fin 0)"
  shows "\<forall>k<n. \<not> dless (S_D0 st' ! k) (Fin 0)"
  using assms
  by (auto simp: S_iteration_def Let_def dadd_not_negative dmul_self_not_negative
      split: sum.splits prod.splits)

lemma S_loop_D0_not_negative:
  assumes "S_loop X g n M1 m ACA out useIFD K r = Inr st" and "k < n"
  shows "\<not> dless (S_D0 st ! k) (Fin 0)"
proof -
  have "\<forall>k<n. \<not> dless (S_D0 st ! k) (Fin 0)"
    using assms(1) unfolding S_loop_def
  proof (rule for_loop_invariant)
    show "\<forall>k<n. \<not> dless (S_D0 \<lparr>S_theta = replicate n (Fin 0), S_D0 = replicate n (Fin 0),
        S_ifd_aux = Fin 0, S_outfile = out, S_g = g, S_rng = r\<rparr> ! k) (Fin 0)"
      by simp
  qed (rule S_iteration_D0_not_negative)
  with assms(2) show ?thesis by simp
qed

text \<open>
  What holds of the result of Algorithm S on every input: \<^verbatim>\<open>Dmean[k]\<close> is the quotient
  \<^verbatim>\<open>sampler_m / D0[k]\<close>, and \<^verbatim>\<open>D0[k]\<close>, a sum of squares, is never negative. Nothing
  keeps it from being zero, and then the quotient of a positive \<^verbatim>\<open>sampler_m\<close> is plus
  infinity.
\<close>

lemma algorithm_S_result:
  assumes "algorithm_S X g n M1 sampler_m ACA theta_outfile useIFDsampler ifd_K r = Inr (Dmean, st)"
    and "k < n"
  shows "Dmean ! k = ddiv (double_of_uint sampler_m) (S_D0 st ! k)"
    and "\<not> dless (S_D0 st ! k) (Fin 0)"
    and "S_D0 st ! k = Fin 0 \<Longrightarrow> sampler_m \<noteq> 0 \<Longrightarrow> Dmean ! k = PInf"
proof -
  from assms(1) have loop: "S_loop X g n M1 sampler_m ACA theta_outfile useIFDsampler ifd_K r = Inr st"
    and Dmean: "Dmean = map (\<lambda>l. ddiv (double_of_uint sampler_m) (S_D0 st ! l)) [0..<n]"
    by (auto simp: algorithm_S_def split: sum.splits)
  from Dmean assms(2) show eq: "Dmean ! k = ddiv (double_of_uint sampler_m) (S_D0 st ! k)"
    by simp
  from loop assms(2) show "\<not> dless (S_D0 st ! k) (Fin 0)"
    by (rule S_loop_D0_not_negative)
  assume zero: "S_D0 st ! k = Fin 0" and m: "sampler_m \<noteq> 0"
  define m' where "m' = real (unat sampler_m)"
  have conv: "double_of_uint sampler_m = Fin m'"
    by (simp only: double_of_uint_def double_of_nat_def m'_def)
  from m have "0 < unat sampler_m"
    by (simp add: unat_gt_0)
  then have "0 < m'"
    by (simp only: m'_def of_nat_0_less_iff)
  with eq zero show "Dmean ! k = PInf"
    by (simp add: conv scale_inf_def)
qed

text \<open>
  When Algorithm S makes no iteration (\<open>M\<^sub>1 = 0\<close>, as for
  \<^verbatim>\<open>M1_steps * num_nodes < sampler_m\<close>), \<^verbatim>\<open>D0\<close> keeps its initial zeros whatever the
  sampler and the random draws are, and every \<^verbatim>\<open>Dmean[k]\<close> is plus infinity.
\<close>

lemma algorithm_S_no_iteration:
  assumes "sampler_m \<noteq> 0" and "k < n"
  shows "\<exists>Dmean st. algorithm_S X g n 0 sampler_m ACA theta_outfile useIFDsampler ifd_K r =
           Inr (Dmean, st) \<and> S_D0 st ! k = Fin 0 \<and> Dmean ! k = PInf"
proof -
  obtain Dmean st where
    run: "algorithm_S X g n 0 sampler_m ACA theta_outfile useIFDsampler ifd_K r = Inr (Dmean, st)"
    and D0: "S_D0 st = replicate n (Fin 0)"
    by (simp add: algorithm_S_def S_loop_def)
  from D0 assms(2) have "S_D0 st ! k = Fin 0"
    by simp
  with run algorithm_S_result(3) [OF run assms(2) _ assms(1)] show ?thesis
    by blast
qed

text \<open>
  Claim C8 does not hold of the code. The claim asks for \<open>D\<^sub>0[k] \<noteq> 0\<close>, so that
  \<^verbatim>\<open>Dmean[k] = sampler_m / D0[k]\<close> is well defined, on every input. \<^verbatim>\<open>algorithm_S\<close>
  divides by \<^verbatim>\<open>D0[l]\<close> without testing it, although it guards its other division, by the
  squared sum of the change statistics, against a zero divisor. One iteration of Algorithm S
  with two proposals on the two-node digraph, the first deleting the arc \<open>0 \<rightarrow> 1\<close> and the
  second adding the arc \<open>1 \<rightarrow> 0\<close>, both accepted since theta is 0: the change statistics of
  the Arc effect cancel, \<^verbatim>\<open>D0[0]\<close> is \<open>0\<close> and \<^verbatim>\<open>Dmean[0] = 2 / 0\<close> is infinite.
\<close>

theorem algorithm_S_D0_zero:
  "(case algorithm_S example_externals example_graph 1 1 2 (Fin (1 / 8)) [] False (Fin 0)
           \<lparr>int_draws = [0, 1, 1, 0], unit_draws = [1 / 2, 1 / 2]\<rparr> of
      Inl e \<Rightarrow> False
    | Inr (Dmean, st) \<Rightarrow> S_D0 st = [Fin 0] \<and> Dmean = [PInf])"
  unfolding run2 by simp

section \<open>Algorithm EE: the update of the parameters\<close>

lemma EE_theta_step_spec: "EE_theta_step ACA D dz = spec_EE_step ACA D dz"
  unfolding EE_theta_step_def spec_EE_step_def dsign_def Let_def
  by (cases ACA; cases D; cases dz) (auto simp: scale_inf_def mult.assoc split: if_splits)

lemma spec_EE_step_zero: "is_finite (dmul D ACA) \<Longrightarrow> spec_EE_step ACA D (Fin 0) = Fin 0"
  unfolding spec_EE_step_def dsign_def Let_def
  by (cases "dmul D ACA") simp_all

lemma dadd_zero: "dadd x (Fin 0) = x"
  by (cases x) simp_all

lemmas EE_defs = EE_inner_def EE_initial_def call_sampler_def example_externals_def
  basic_externals_def EE_theta_step_def double_of_nat_def dsub_def scale_inf_def

text \<open>
  What holds of every inner iteration that returns, for every effect \<open>k\<close>: \<^verbatim>\<open>dzA[k]\<close>
  is incremented by \<^verbatim>\<open>addChangeStats[k] - delChangeStats[k]\<close> of the sampler's result (the
  sampler performs its moves) and then \<^verbatim>\<open>theta[k]\<close> is incremented by
  \<open>- sign(dzA[k]) \<cdot> (D\<^sub>0[k] \<cdot> ACA) \<cdot> dzA[k]\<^sup>2\<close>; this step leaves \<^verbatim>\<open>theta[k]\<close>
  unchanged when \<^verbatim>\<open>dzA[k]\<close> is 0 and \<open>D\<^sub>0[k] \<cdot> ACA\<close> is finite.
\<close>

lemma EE_inner_update:
  assumes "EE_inner X n sampler_m ACA outputAllSteps useIFDsampler ifd_K corr tinner st = Inr st'"
    and "k < n"
  shows "\<exists>res cols aux.
           call_sampler X useIFDsampler ifd_K corr (EE_g st) (EE_theta st) (unat sampler_m) True
             (EE_ifd_aux st) (EE_rng st) = Inr (res, cols, aux) \<and>
           EE_dzA st' ! k =
             dadd (EE_dzA st ! k) (dsub (addChangeStats res ! k) (delChangeStats res ! k)) \<and>
           EE_theta st' ! k =
             dadd (EE_theta st ! k) (spec_EE_step ACA (EE_D0 st ! k) (EE_dzA st' ! k)) \<and>
           (EE_dzA st' ! k = Fin 0 \<and> is_finite (dmul (EE_D0 st ! k) ACA) \<longrightarrow>
              EE_theta st' ! k = EE_theta st ! k)"
proof -
  from assms(1) obtain res cols aux where
    call: "call_sampler X useIFDsampler ifd_K corr (EE_g st) (EE_theta st) (unat sampler_m) True
             (EE_ifd_aux st) (EE_rng st) = Inr (res, cols, aux)"
    by (auto simp: EE_inner_def split: sum.splits)
  from assms call have dzA:
    "EE_dzA st' ! k = dadd (EE_dzA st ! k) (dsub (addChangeStats res ! k) (delChangeStats res ! k))"
    by (auto simp: EE_inner_def Let_def)
  from assms call have theta:
    "EE_theta st' ! k = dadd (EE_theta st ! k) (spec_EE_step ACA (EE_D0 st ! k) (EE_dzA st' ! k))"
    by (auto simp: EE_inner_def Let_def EE_theta_step_spec)
  have zero: "EE_theta st' ! k = EE_theta st ! k"
    if "EE_dzA st' ! k = Fin 0" and "is_finite (dmul (EE_D0 st ! k) ACA)"
    using theta that by (simp add: spec_EE_step_zero dadd_zero)
  from call dzA theta zero show ?thesis
    by blast
qed

text \<open>
  The assertion \<^verbatim>\<open>theta_sd >= 0\<close> after the inner loop fails, and the program stops, when
  the standard deviation of the theta values of an effect is not a number.
\<close>

lemma adjust_D0_assertion:
  assumes "snd (ext_mean_and_sd X (EE_thetamatrix st ! k)) = NaN" and "k < n"
  shows "adjust_D0 X n compC st = Inl AssertFailed"
proof -
  from assms have "\<not> list_all (\<lambda>l. dle (Fin 0) (snd (ext_mean_and_sd X (EE_thetamatrix st ! l)))) [0..<n]"
    by (auto simp: list_all_iff dle_def intro!: bexI [of _ k])
  then show ?thesis
    by (simp add: adjust_D0_def)
qed

lemma EE_run_infinite:
  "EE_inner example_externals 1 2 (Fin (1 / 2 ^ 30)) False False (Fin 0) (Fin 0) 0
     (EE_initial 1 1 [PInf] [Fin 0]
        [\<lparr>row_t = - 1, row_arc = None, row_theta = [Fin 0], row_rate = Fin 1\<rparr>] [] example_graph
        \<lparr>int_draws = [0, 1, 1, 0], unit_draws = [1 / 2, 1 / 2]\<rparr>) =
   Inr \<lparr>EE_theta = [NaN], EE_dzA = [Fin 0], EE_D0 = [PInf], EE_t = 1, EE_ifd_aux = Fin 0,
        EE_thetamatrix = [[NaN]],
        EE_theta_outfile =
          [\<lparr>row_t = - 1, row_arc = None, row_theta = [Fin 0], row_rate = Fin 1\<rparr>,
           \<lparr>row_t = 0, row_arc = None, row_theta = [NaN], row_rate = Fin 1\<rparr>],
        EE_dzA_outfile = [\<lparr>drow_t = 0, drow_arc = None, drow_dzA = [Fin 0]\<rparr>],
        EE_g = example_graph\<lparr>arcs := {(1, 0)}\<rparr>,
        EE_rng = \<lparr>int_draws = [], unit_draws = []\<rparr>\<rparr>"
  by (simp add: EE_defs run_defs example_defs sweep_numeral)

text \<open>
  Claim C1 does not hold of the code. The update is the claimed one, but its step is not 0
  for \<^verbatim>\<open>dzA[k] = 0\<close> when \<^verbatim>\<open>D0[k]\<close> is infinite, and this is the \<^verbatim>\<open>D0\<close> that
  \<^verbatim>\<open>algorithm_S\<close> hands over when its unguarded division \<^verbatim>\<open>sampler_m / D0[l]\<close> divides
  by zero. On the two-node digraph, Algorithm S with one iteration of two proposals (the arc
  \<open>0 \<rightarrow> 1\<close> deleted, the arc \<open>1 \<rightarrow> 0\<close> added, both accepted) returns theta 0 and
  \<^verbatim>\<open>Dmean[0] = 2 / 0\<close>. In the first inner iteration of Algorithm EE on these values the
  same two proposals are accepted and performed, \<^verbatim>\<open>dzA[0] = 0 + (1 - 1)\<close> is 0, the step
  \<open>((-1 \<cdot> (\<infinity> \<cdot> ACA)) \<cdot> 0) \<cdot> 0\<close> is not a number and so is \<^verbatim>\<open>theta[0]\<close>, which was 0.
  The assertion on the standard deviation of the theta values then fails.
\<close>

theorem EE_step_not_zero:
  "(case algorithm_S example_externals example_graph 1 1 2 (Fin (1 / 8)) [] False (Fin 0)
           \<lparr>int_draws = [0, 1, 1, 0], unit_draws = [1 / 2, 1 / 2]\<rparr> of
      Inl e \<Rightarrow> False
    | Inr (Dmean, sst) \<Rightarrow>
        S_theta sst = [Fin 0] \<and> Dmean = [PInf] \<and>
        (case EE_inner example_externals 1 2 (Fin (1 / 2 ^ 30)) False False (Fin 0) (Fin 0) 0
                (EE_initial 1 1 Dmean (S_theta sst) (S_outfile sst) [] (S_g sst)
                   \<lparr>int_draws = [0, 1, 1, 0], unit_draws = [1 / 2, 1 / 2]\<rparr>) of
           Inl e \<Rightarrow> False
         | Inr st \<Rightarrow> EE_dzA st = [Fin 0] \<and> EE_theta st = [NaN]))"
  by (simp add: S_defs EE_defs run_defs example_defs sweep_numeral)

section \<open>The basic sampler: the selection of a dyad\<close>

lemma select_unconditional_isDelete:
  "select_unconditional g forbid ds = Inr (i, j, isDelete, ds') \<Longrightarrow> isDelete = isArc g i j"
proof (induction g forbid ds rule: select_unconditional.induct)
  case (1 g forbid ds)
  from "1.prems" obtain i0 ds1 where i0: "int_urand (num_nodes g) ds = Inr (i0, ds1)"
    by (subst (asm) select_unconditional.simps) (auto split: sum.splits)
  from "1.prems" i0 obtain j0 ds2 where j0: "draw_j id (num_nodes g) i0 ds1 = Inr (j0, ds2)"
    by (subst (asm) select_unconditional.simps) (auto split: sum.splits)
  show ?case
  proof (cases "forbid \<and> \<not> isArc g i0 j0 \<and> isArc g j0 i0")
    case True
    with "1.prems" i0 j0 have "select_unconditional g forbid ds2 = Inr (i, j, isDelete, ds')"
      by (subst (asm) select_unconditional.simps) simp
    with "1.IH" [OF i0 refl j0 refl True] show ?thesis
      by simp
  next
    case False
    with "1.prems" i0 j0 show ?thesis
      by (subst (asm) select_unconditional.simps) auto
  qed
qed

section \<open>The basic sampler: what a sweep does to the digraph\<close>

lemma arcs_insertArc: "arcs (insertArc g i j) = insert (i, j) (arcs g)"
  by (simp add: insertArc_def set_arcs_def)

lemma arcs_removeArc: "arcs (removeArc g i j) = arcs g - {(i, j)}"
  by (simp add: removeArc_def set_arcs_def)

lemma frame_insertArc:
  "allarcs (insertArc g i j) = allarcs g" "zone (insertArc g i j) = zone g"
  "max_zone (insertArc g i j) = max_zone g" "inner_nodes (insertArc g i j) = inner_nodes g"
  "num_nodes (insertArc g i j) = num_nodes g"
  by (simp_all add: insertArc_def set_arcs_def)

lemma frame_removeArc:
  "allarcs (removeArc g i j) = allarcs g" "zone (removeArc g i j) = zone g"
  "max_zone (removeArc g i j) = max_zone g" "inner_nodes (removeArc g i j) = inner_nodes g"
  "num_nodes (removeArc g i j) = num_nodes g"
  by (simp_all add: removeArc_def set_arcs_def)

lemma decide_effect:
  assumes "decide E a st i j isDelete ds = Inr (accepted, st')"
    and "isDelete \<longrightarrow> (i, j) \<in> arcs (st_g st)"
  shows "arcs (st_g st') = arcs_after a (st_g st) i j isDelete accepted"
    and "allarcs (st_g st') = allarcs (st_g st)"
    and "zone (st_g st') = zone (st_g st)"
    and "max_zone (st_g st') = max_zone (st_g st)"
    and "inner_nodes (st_g st') = inner_nodes (st_g st)"
    and "st_isDelete st' = isDelete"
  using assms
  by (auto simp: decide_def Let_def arcs_after_def arcs_insertArc arcs_removeArc
      frame_insertArc frame_removeArc split: sum.splits if_splits)

lemma select_dyad_flag:
  assumes "select_dyad a st = Inr (i, j, isDelete, ds)" and "flag_invariant a st"
  shows "isDelete \<longrightarrow> (i, j) \<in> arcs (st_g st)"
    and "arg_useConditionalEstimation a \<longrightarrow> \<not> isDelete"
  using assms
  by (auto simp: select_dyad_def flag_invariant_def isArc_def
      dest: select_unconditional_isDelete split: if_splits sum.splits)

lemma proposal_effect:
  assumes "proposal E a st = Inr (accepted, st')" and "flag_invariant a st"
  shows "\<exists>i j isDelete. arcs (st_g st') = arcs_after a (st_g st) i j isDelete accepted"
    and "allarcs (st_g st') = allarcs (st_g st)"
    and "flag_invariant a st'"
proof -
  from assms(1) obtain i j isDelete ds where
    sel: "select_dyad a st = Inr (i, j, isDelete, ds)"
    and dec: "decide E a st i j isDelete ds = Inr (accepted, st')"
    by (auto simp: proposal_def split: sum.splits)
  note flag = select_dyad_flag [OF sel assms(2)]
  from decide_effect(1) [OF dec flag(1)]
  show "\<exists>i j isDelete. arcs (st_g st') = arcs_after a (st_g st) i j isDelete accepted"
    by blast
  from decide_effect(2) [OF dec flag(1)] show "allarcs (st_g st') = allarcs (st_g st)" .
  from decide_effect(6) [OF dec flag(1)] flag(2) show "flag_invariant a st'"
    by (simp add: flag_invariant_def)
qed

lemma sweep_invariant:
  assumes "sweep E a k st = Inr st'" and "flag_invariant a st"
  shows "flag_invariant a st' \<and> allarcs (st_g st') = allarcs (st_g st) \<and>
         (\<not> arg_performMove a \<longrightarrow> arcs (st_g st') = arcs (st_g st))"
  using assms
proof (induction k arbitrary: st)
  case 0
  then show ?case by simp
next
  case (Suc k)
  from Suc.prems(1) obtain accepted st1 where
    p: "proposal E a st = Inr (accepted, st1)" and rest: "sweep E a k st1 = Inr st'"
    by (auto split: sum.splits)
  note eff = proposal_effect [OF p Suc.prems(2)]
  from Suc.IH [OF rest eff(3)] eff(1,2) show ?case
    by (auto simp: arcs_after_def)
qed

lemma initial_flag: "flag_invariant a (initial_state n g r)"
  by (simp add: flag_invariant_def initial_state_def)

lemmas sampler_run_defs = run_defs example_defs example_args_def sweep_numeral scale_inf_def
  double_of_nat_def

lemma example_run_rejected:
  "basicSampler example_effects (example_args [PInf] False) 1 example_graph
     \<lparr>int_draws = [0, 1], unit_draws = [1 / 2]\<rparr> =
   Inr \<lparr>acceptance_rate = Fin 0, addChangeStats = [Fin 0], delChangeStats = [Fin 0],
         res_g = example_graph, res_rng = \<lparr>int_draws = [], unit_draws = []\<rparr>\<rparr>"
  by (simp add: sampler_run_defs)

lemma example_proposal_rejected:
  "proposal example_effects (example_args [PInf] False)
     (initial_state 1 example_graph \<lparr>int_draws = [0, 1], unit_draws = [1 / 2]\<rparr>) =
   Inr (False, \<lparr>st_g = example_graph, st_add = [Fin 0], st_del = [Fin 0], st_accepted = 0,
                st_isDelete = True, st_rng = \<lparr>int_draws = [], unit_draws = []\<rparr>\<rparr>)"
  by (simp add: sampler_run_defs)

lemma example_run_delete:
  "basicSampler example_effects (example_args [Fin 0] True) 1 example_graph
     \<lparr>int_draws = [0, 1], unit_draws = [1 / 2]\<rparr> =
   Inr \<lparr>acceptance_rate = Fin 1, addChangeStats = [Fin 0], delChangeStats = [Fin 1],
         res_g = example_graph\<lparr>arcs := {}\<rparr>, res_rng = \<lparr>int_draws = [], unit_draws = []\<rparr>\<rparr>"
  by (simp add: sampler_run_defs)

text \<open>
  Claim C5. A call of the sampler that does not perform its moves leaves the arc set of the
  digraph as it was, and so does every rejected proposal of a sweep, whether moves are
  performed or not: a delete move is proposed for an existing arc only, its arc is removed
  for the computation and inserted again, and an add move inserts nothing.
\<close>

theorem basicSampler_restores_arcs:
  "(basicSampler E a sampler_m g r = Inr res \<and> \<not> arg_performMove a \<longrightarrow>
      arcs (res_g res) = arcs g) \<and>
   (sweep E a k (initial_state (arg_n a) g r) = Inr st \<and> proposal E a st = Inr (False, st') \<longrightarrow>
      arcs (st_g st') = arcs (st_g st))"
proof (intro conjI impI)
  assume run: "basicSampler E a sampler_m g r = Inr res \<and> \<not> arg_performMove a"
  then obtain st where sw: "sweep E a sampler_m (initial_state (arg_n a) g r) = Inr st"
    and res: "res_g res = st_g st"
    by (auto simp: basicSampler_def split: sum.splits)
  from sweep_invariant [OF sw initial_flag] run res show "arcs (res_g res) = arcs g"
    by (simp add: initial_state_def)
next
  assume rej: "sweep E a k (initial_state (arg_n a) g r) = Inr st \<and>
    proposal E a st = Inr (False, st')"
  then have sw: "sweep E a k (initial_state (arg_n a) g r) = Inr st"
    and p: "proposal E a st = Inr (False, st')"
    by simp_all
  from sweep_invariant [OF sw initial_flag] have "flag_invariant a st"
    by simp
  from proposal_effect(1) [OF p this] obtain i j isDelete where
    "arcs (st_g st') = arcs_after a (st_g st) i j isDelete False"
    by blast
  then show "arcs (st_g st') = arcs (st_g st)"
    by (simp add: arcs_after_def)
qed

theorem basicSampler_restores_arcs_witness:
  "arcs (res_g \<lparr>acceptance_rate = Fin 0, addChangeStats = [Fin 0], delChangeStats = [Fin 0],
         res_g = example_graph, res_rng = \<lparr>int_draws = [], unit_draws = []\<rparr>\<rparr>) =
     arcs example_graph \<and>
   arcs (st_g \<lparr>st_g = example_graph, st_add = [Fin 0], st_del = [Fin 0], st_accepted = 0,
                st_isDelete = True, st_rng = \<lparr>int_draws = [], unit_draws = []\<rparr>\<rparr>) =
     arcs (st_g (initial_state 1 example_graph \<lparr>int_draws = [0, 1], unit_draws = [1 / 2]\<rparr>))"
proof -
  let ?a = "example_args [PInf] False"
  let ?r = "\<lparr>int_draws = [0, 1], unit_draws = [1 / 2]\<rparr>"
  have n: "arg_n ?a = 1" and move: "\<not> arg_performMove ?a"
    by (simp_all add: example_args_def)
  have sw: "sweep example_effects ?a 0 (initial_state (arg_n ?a) example_graph ?r) =
      Inr (initial_state 1 example_graph ?r)"
    by (simp add: n)
  from basicSampler_restores_arcs [of example_effects ?a 1 example_graph ?r _ 0
      "initial_state 1 example_graph ?r"]
    example_run_rejected example_proposal_rejected sw move
  show ?thesis
    by blast
qed

text \<open>
  Claim C10, as the code has it. The flat list of all arcs is the same after every call of
  the sampler as before it. Hence, when the list held the arcs of the digraph before the call
  and the call leaves a different arc set, the list no longer holds the arcs of the digraph.
\<close>

theorem basicSampler_allarcs:
  assumes "basicSampler E a sampler_m g r = Inr res"
  shows "allarcs (res_g res) = allarcs g \<and>
         (set (allarcs g) = arcs g \<and> arcs (res_g res) \<noteq> arcs g \<longrightarrow>
            set (allarcs (res_g res)) \<noteq> arcs (res_g res))"
proof -
  from assms obtain st where sw: "sweep E a sampler_m (initial_state (arg_n a) g r) = Inr st"
    and res: "res_g res = st_g st"
    by (auto simp: basicSampler_def split: sum.splits)
  from sweep_invariant [OF sw initial_flag] res have "allarcs (res_g res) = allarcs g"
    by (simp add: initial_state_def)
  then show ?thesis
    by auto
qed

theorem basicSampler_allarcs_witness:
  "allarcs (example_graph\<lparr>arcs := {}\<rparr>) = allarcs example_graph \<and>
   set (allarcs (example_graph\<lparr>arcs := {}\<rparr>)) \<noteq> arcs (example_graph\<lparr>arcs := {}\<rparr>)"
  using basicSampler_allarcs [OF example_run_delete]
  by (simp add: example_graph_def)

text \<open>
  The claim as stated fails: a sweep that performs its moves and accepts both of its two
  proposals, the first deleting the arc \<open>0 \<rightarrow> 1\<close> and the second adding it again,
  leaves the arc set it found, and the flat list still holds the arcs of the digraph.
\<close>

theorem basicSampler_allarcs_still_matches:
  "(case basicSampler example_effects (example_args [Fin 0] True) 2 example_graph
           \<lparr>int_draws = [0, 1, 0, 1], unit_draws = [1 / 2, 1 / 2]\<rparr> of
      Inl e \<Rightarrow> False
    | Inr res \<Rightarrow> acceptance_rate res = Fin 1 \<and> arg_performMove (example_args [Fin 0] True) \<and>
        set (allarcs example_graph) = arcs example_graph \<and>
        set (allarcs (res_g res)) = arcs (res_g res))"
  by (simp add: sampler_run_defs)

section \<open>The basic sampler: the decision on a proposal\<close>

lemma urand_range: "urand us = Inr (u, rest) \<Longrightarrow> dless (Fin 0) u \<and> dless u (Fin 1)"
  by (auto simp: urand_def split: list.splits if_splits)

lemma dexp_cases: "dexp x = NInf \<Longrightarrow> False"
  by (cases x) simp_all

text \<open>
  The flag \<^verbatim>\<open>isDelete\<close> of a proposal of a sweep says whether \<open>i \<rightarrow> j\<close> is an arc,
  except under conditional estimation for a dyad with that arc.
\<close>

lemma select_dyad_isArc:
  assumes "select_dyad a st = Inr (i, j, flag, ds)"
    and "flag_invariant a st"
    and "arg_useConditionalEstimation a \<longrightarrow> \<not> isArc (st_g st) i j"
  shows "flag = isArc (st_g st) i j"
proof (cases "arg_useConditionalEstimation a")
  case True
  with assms(1) have "flag = st_isDelete st"
    by (auto simp: select_dyad_def split: if_splits sum.splits)
  with True assms(2,3) show ?thesis
    by (simp add: flag_invariant_def)
next
  case False
  with assms(1) show ?thesis
    by (simp add: select_dyad_def select_unconditional_isDelete)
qed

lemma decide_total:
  assumes "urand (unit_draws (st_rng st)) = Inr (u, us)"
  shows "\<exists>st'. decide E a st i j (isArc (st_g st) i j) ds =
           Inr (dless u (dexp (proposal_total E a (st_g st) i j)), st')"
  using assms
  by (cases "dless u (dexp (proposal_total E a (st_g st) i j))")
    (simp_all add: decide_def proposal_total_def compute_total_def move_sign_def Let_def)

text \<open>
  Claim C3, as the code has it. For every proposal of a call of the sampler (under
  conditional estimation: for every proposal for a dyad without the arc \<open>i \<rightarrow> j\<close>) whose
  dyad is chosen and whose uniform draw \<open>u\<close>, strictly between 0 and 1, is made: \<open>total\<close>
  is the sum of \<open>\<theta>[k] \<cdot> s \<cdot> \<Delta>[k]\<close> with \<open>s = -1\<close> for a delete proposal (the arc removed
  first) and \<open>s = +1\<close> for an add, and the proposal is accepted exactly when
  \<open>u < exp(total)\<close> in double arithmetic. So an \<open>exp(total)\<close> that is not a number
  rejects the proposal, and an infinite one accepts it.
\<close>

theorem proposal_decision:
  assumes "sweep E a k (initial_state (arg_n a) g r) = Inr st"
    and "select_dyad a st = Inr (i, j, flag, ds)"
    and "urand (unit_draws (st_rng st)) = Inr (u, us)"
    and "arg_useConditionalEstimation a \<longrightarrow> \<not> isArc (st_g st) i j"
  shows "\<exists>st'. proposal E a st = Inr (dless u (dexp (proposal_total E a (st_g st) i j)), st') \<and>
           dless (Fin 0) u \<and> dless u (Fin 1) \<and>
           (dexp (proposal_total E a (st_g st) i j) = NaN \<longrightarrow>
              proposal E a st = Inr (False, st')) \<and>
           (dexp (proposal_total E a (st_g st) i j) = PInf \<longrightarrow>
              proposal E a st = Inr (True, st')) \<and>
           dexp (proposal_total E a (st_g st) i j) \<noteq> NInf"
proof -
  let ?total = "proposal_total E a (st_g st) i j"
  from sweep_invariant [OF assms(1) initial_flag] have "flag_invariant a st"
    by simp
  from select_dyad_isArc [OF assms(2) this assms(4)] have flag: "flag = isArc (st_g st) i j" .
  from decide_total [OF assms(3), of E a i j ds] obtain st' where
    "decide E a st i j (isArc (st_g st) i j) ds = Inr (dless u (dexp ?total), st')"
    by blast
  with assms(2) have decided: "proposal E a st = Inr (dless u (dexp ?total), st')"
    unfolding flag by (simp add: proposal_def)
  have range: "dless (Fin 0) u \<and> dless u (Fin 1)"
    using assms(3) by (rule urand_range)
  have nan: "proposal E a st = Inr (False, st')" if "dexp ?total = NaN"
    using decided that by (cases u) simp_all
  have inf: "proposal E a st = Inr (True, st')" if "dexp ?total = PInf"
    using decided that range by (cases u) simp_all
  have ninf: "dexp ?total \<noteq> NInf"
    using dexp_cases by blast
  from decided range nan inf ninf show ?thesis
    by blast
qed

lemma example_select_delete:
  "select_dyad (example_args [Fin 0] True)
     (initial_state 1 example_graph \<lparr>int_draws = [0, 1], unit_draws = [1 / 2]\<rparr>) =
   Inr (0, 1, True, [])"
  by (simp add: example_args_def run_defs example_defs)

lemma example_urand:
  "urand (unit_draws (st_rng (initial_state 1 g
      \<lparr>int_draws = [0, 1], unit_draws = [1 / 2]\<rparr>))) = Inr (Fin (1 / 2), [])"
  by (simp add: run_defs)

lemma example_total:
  "proposal_total example_effects (example_args [Fin 0] True) example_graph 0 1 = Fin 0"
  by (simp add: proposal_total_def example_args_def run_defs example_defs)

lemma snowball_select_add:
  "select_dyad snowball_args
     (initial_state 1 snowball_graph \<lparr>int_draws = [0, 1], unit_draws = [1 / 2]\<rparr>) =
   Inr (0, 1, False, [])"
  by (simp add: snowball_graph_def snowball_args_def zone_distance_def last_tie_to_prev_wave_def
      isArcIgnoreDirection_def sampler_run_defs)

lemma snowball_total:
  "proposal_total example_effects snowball_args snowball_graph 0 1 = Fin 0"
  by (simp add: proposal_total_def snowball_graph_def snowball_args_def sampler_run_defs)

theorem proposal_decision_witness:
  "(case proposal example_effects (example_args [Fin 0] True)
           (initial_state 1 example_graph \<lparr>int_draws = [0, 1], unit_draws = [1 / 2]\<rparr>) of
      Inl e \<Rightarrow> False
    | Inr (accepted, st') \<Rightarrow> accepted) \<and>
   isArc example_graph 0 1 \<and>
   dexp (proposal_total example_effects (example_args [Fin 0] True) example_graph 0 1) = Fin 1 \<and>
   (case proposal example_effects snowball_args
           (initial_state 1 snowball_graph \<lparr>int_draws = [0, 1], unit_draws = [1 / 2]\<rparr>) of
      Inl e \<Rightarrow> False
    | Inr (accepted, st') \<Rightarrow> accepted) \<and>
   arg_useConditionalEstimation snowball_args \<and> \<not> isArc snowball_graph 0 1 \<and>
   dexp (proposal_total example_effects snowball_args snowball_graph 0 1) = Fin 1"
proof -
  let ?r = "\<lparr>int_draws = [0, 1], unit_draws = [1 / 2]\<rparr>"
  let ?a = "example_args [Fin 0] True"
  have n: "arg_n ?a = 1" "arg_n snowball_args = 1"
    and mode: "\<not> arg_useConditionalEstimation ?a" "arg_useConditionalEstimation snowball_args"
    by (simp_all add: example_args_def snowball_args_def)
  have g: "st_g (initial_state 1 g ?r) = g" for g
    by (simp add: initial_state_def)
  have arc: "isArc example_graph 0 1" "\<not> isArc snowball_graph 0 1"
    by (simp_all add: isArc_def example_graph_def snowball_graph_def)
  from proposal_decision [where E = example_effects and a = ?a and k = 0 and g = example_graph
      and r = ?r and st = "initial_state 1 example_graph ?r" and i = 0 and j = 1 and flag = True
      and ds = "[]" and u = "Fin (1 / 2)" and us = "[]"]
    example_select_delete example_urand mode(1) n(1)
  obtain st1 where "proposal example_effects ?a (initial_state 1 example_graph ?r) =
      Inr (dless (Fin (1 / 2)) (dexp (proposal_total example_effects ?a example_graph 0 1)), st1)"
    unfolding g by auto
  moreover
  from proposal_decision [where E = example_effects and a = snowball_args and k = 0
      and g = snowball_graph and r = ?r and st = "initial_state 1 snowball_graph ?r" and i = 0
      and j = 1 and flag = False and ds = "[]" and u = "Fin (1 / 2)" and us = "[]"]
    snowball_select_add example_urand arc(2) n(2)
  obtain st2 where "proposal example_effects snowball_args (initial_state 1 snowball_graph ?r) =
      Inr (dless (Fin (1 / 2)) (dexp (proposal_total example_effects snowball_args
        snowball_graph 0 1)), st2)"
    unfolding g by auto
  ultimately show ?thesis
    unfolding example_total snowball_total using mode(2) arc by simp
qed

text \<open>
  The claim as stated fails for an infinite \<open>exp(total)\<close>: with \<^verbatim>\<open>theta[0]\<close> infinite
  and the proposal to add the arc \<open>1 \<rightarrow> 0\<close>, \<open>total\<close> and \<open>exp(total)\<close> are plus
  infinity, every draw is below it, and the proposal is accepted.
\<close>

theorem proposal_accepted_at_infinity:
  "dexp (proposal_total example_effects (example_args [PInf] True) example_graph 1 0) = PInf \<and>
   (case proposal example_effects (example_args [PInf] True)
           (initial_state 1 example_graph \<lparr>int_draws = [1, 0], unit_draws = [1 / 2]\<rparr>) of
      Inl e \<Rightarrow> False
    | Inr (accepted, st') \<Rightarrow> accepted)"
  by (simp add: proposal_total_def example_args_def run_defs example_defs scale_inf_def)

section \<open>The basic sampler: the sums of change statistics\<close>

lemma dadd_nonnegative: "dle (Fin 0) x \<Longrightarrow> dle (Fin 0) y \<Longrightarrow> dle (Fin 0) (dadd x y)"
  by (cases x; cases y) (auto simp: dle_def)

lemma decide_sums_nonnegative:
  assumes "decide E a st i j isDelete ds = Inr (accepted, st')"
    and "nonnegative_effects E a"
    and "sums_nonnegative (arg_n a) st"
  shows "sums_nonnegative (arg_n a) st'"
  using assms
  by (auto simp: decide_def Let_def sums_nonnegative_def nonnegative_effects_def accumulate_def
      dadd_nonnegative split: sum.splits if_splits)

lemma sweep_sums_nonnegative:
  assumes "sweep E a k st = Inr st'"
    and "nonnegative_effects E a"
    and "sums_nonnegative (arg_n a) st"
  shows "sums_nonnegative (arg_n a) st'"
  using assms(1,3)
proof (induction k arbitrary: st)
  case 0
  then show ?case by simp
next
  case (Suc k)
  from Suc.prems(1) obtain accepted st1 where
    p: "proposal E a st = Inr (accepted, st1)" and rest: "sweep E a k st1 = Inr st'"
    by (auto split: sum.splits)
  from p obtain i j isDelete ds where "decide E a st i j isDelete ds = Inr (accepted, st1)"
    by (auto simp: proposal_def split: sum.splits)
  from decide_sums_nonnegative [OF this assms(2) Suc.prems(2)] Suc.IH [OF rest]
  show ?case by simp
qed

lemma example_nonnegative: "nonnegative_effects example_effects (example_args theta performMove)"
  by (simp add: nonnegative_effects_def example_args_def compute_changestats_def
      example_effects_def changeArc_def dle_def)

text \<open>
  Claim C6, as the code has it. The two output vectors are zeroed at entry and each holds,
  per effect, the sum of the change statistics of the accepted add moves and of the accepted
  delete moves. When every change statistic that the effect functions return is at least 0,
  every component of both vectors is at least 0 on return.
\<close>

theorem basicSampler_sums_nonnegative:
  assumes "basicSampler E a sampler_m g r = Inr res"
    and "nonnegative_effects E a"
    and "k < arg_n a"
  shows "dle (Fin 0) (addChangeStats res ! k) \<and> dle (Fin 0) (delChangeStats res ! k)"
proof -
  from assms(1) obtain st where sw: "sweep E a sampler_m (initial_state (arg_n a) g r) = Inr st"
    and res: "addChangeStats res = st_add st" "delChangeStats res = st_del st"
    by (auto simp: basicSampler_def split: sum.splits)
  have "sums_nonnegative (arg_n a) (initial_state (arg_n a) g r)"
    by (simp add: sums_nonnegative_def initial_state_def dle_def)
  from sweep_sums_nonnegative [OF sw assms(2) this] assms(3) res show ?thesis
    by (simp add: sums_nonnegative_def)
qed

theorem basicSampler_sums_nonnegative_witness:
  "dle (Fin 0) (addChangeStats \<lparr>acceptance_rate = Fin 1, addChangeStats = [Fin 0],
        delChangeStats = [Fin 1], res_g = example_graph\<lparr>arcs := {}\<rparr>,
        res_rng = \<lparr>int_draws = [], unit_draws = []\<rparr>\<rparr> ! 0) \<and>
   dle (Fin 0) (delChangeStats \<lparr>acceptance_rate = Fin 1, addChangeStats = [Fin 0],
        delChangeStats = [Fin 1], res_g = example_graph\<lparr>arcs := {}\<rparr>,
        res_rng = \<lparr>int_draws = [], unit_draws = []\<rparr>\<rparr> ! 0)"
  using basicSampler_sums_nonnegative [OF example_run_delete example_nonnegative, of 0]
  by (simp add: example_args_def)

text \<open>
  The claim as stated fails for an effect whose change statistic can be negative. With the
  Sink effect on the two-node digraph, the accepted proposal to add the arc \<open>1 \<rightarrow> 0\<close>
  removes the sink \<open>1\<close>: the change statistic and the sum for add moves are \<open>-1\<close>.
\<close>

theorem basicSampler_negative_sum:
  "(case basicSampler sink_effects (example_args [Fin 0] False) 1 example_graph
           \<lparr>int_draws = [1, 0], unit_draws = [1 / 2]\<rparr> of
      Inl e \<Rightarrow> False
    | Inr res \<Rightarrow> addChangeStats res = [Fin (- 1)] \<and> \<not> dle (Fin 0) (addChangeStats res ! 0))"
  by (simp add: run_defs example_graph_def example_args_def sweep_numeral scale_inf_def
      double_of_nat_def sink_effects_def changeSink_def has_out_def has_in_def dle_def upt_rec)

section \<open>The basic sampler under conditional estimation\<close>

lemma draw_j_picked:
  "draw_j pick bound i ds = Inr (j, rest) \<Longrightarrow> j \<noteq> i \<and> (\<exists>v<bound. j = pick v)"
proof (induction ds)
  case Nil
  then show ?case by simp
next
  case (Cons r rs)
  then show ?case
    by (auto simp: int_urand_def split: if_splits)
qed

lemma select_conditional_result:
  assumes "select_conditional g ds = Inr (i, j, ds')"
  shows "inner_node g i \<and> inner_node g j \<and> i \<noteq> j \<and> zone_distance g i j \<le> 1 \<and>
         \<not> last_tie_to_prev_wave g i j"
  using assms
proof (induction g ds rule: select_conditional.induct)
  case (1 g ds)
  let ?n = "length (inner_nodes g)"
  from "1.prems" obtain r ds1 where r: "int_urand ?n ds = Inr (r, ds1)"
    by (subst (asm) select_conditional.simps) (auto split: sum.splits)
  let ?i = "inner_nodes g ! r"
  from "1.prems" r obtain j0 ds2 where
    j0: "draw_j (\<lambda>v. inner_nodes g ! v) ?n ?i ds1 = Inr (j0, ds2)"
    by (subst (asm) select_conditional.simps) (auto split: sum.splits)
  from r have r_less: "r < ?n"
    by (auto simp: int_urand_def split: list.splits if_splits)
  from draw_j_picked [OF j0] have j0_mem: "j0 \<in> set (inner_nodes g)" and neq: "j0 \<noteq> ?i"
    by auto
  from "1.prems" r j0 have a1: "zone g ! ?i < max_zone g \<and> zone g ! j0 < max_zone g"
    by (subst (asm) select_conditional.simps) (auto split: if_splits)
  from "1.prems" r j0 a1 have a2:
    "zone_distance g ?i j0 \<le> 1 \<or> \<not> isArcIgnoreDirection g ?i j0"
    by (subst (asm) select_conditional.simps) (auto split: if_splits)
  show ?case
  proof (cases "1 < zone_distance g ?i j0 \<or> last_tie_to_prev_wave g ?i j0")
    case True
    with "1.prems" r j0 a1 a2 have "select_conditional g ds2 = Inr (i, j, ds')"
      by (subst (asm) select_conditional.simps) auto
    from "1.IH" [OF r refl j0 refl _ _ True this] a1 a2 show ?thesis
      by auto
  next
    case False
    with "1.prems" r j0 a1 a2 have "i = ?i" "j = j0"
      by (subst (asm) select_conditional.simps, auto)+
    with False a1 r_less j0_mem neq show ?thesis
      by (auto simp: inner_node_def)
  qed
qed

lemma same_zones:
  assumes "zone g' = zone g" "max_zone g' = max_zone g" "inner_nodes g' = inner_nodes g"
  shows "inner_node g' v = inner_node g v" and "zone_distance g' x y = zone_distance g x y"
  using assms by (simp_all add: inner_node_def zone_distance_def)

lemma proposal_conditional_invariant:
  assumes "proposal E a st = Inr (accepted, st')"
    and "arg_useConditionalEstimation a"
    and "conditional_invariant g st"
  shows "conditional_invariant g st'"
proof -
  from assms(1,2) obtain i j ds where
    sel: "select_conditional (st_g st) (int_draws (st_rng st)) = Inr (i, j, ds)"
    and dec: "decide E a st i j (st_isDelete st) ds = Inr (accepted, st')"
    by (auto simp: proposal_def select_dyad_def split: sum.splits if_splits)
  from assms(3) have zones: "zone (st_g st) = zone g" "max_zone (st_g st) = max_zone g"
      "inner_nodes (st_g st) = inner_nodes g"
    and flag: "\<not> st_isDelete st" and changed: "changed_dyads_inner g (st_g st)"
    by (simp_all add: conditional_invariant_def)
  from select_conditional_result [OF sel] same_zones [OF zones]
  have dyad: "inner_node g i \<and> inner_node g j \<and> i \<noteq> j \<and> zone_distance g i j \<le> 1"
    by simp
  from flag have pre: "st_isDelete st \<longrightarrow> (i, j) \<in> arcs (st_g st)"
    by simp
  note eff = decide_effect [OF dec pre]
  from eff(1) flag have "arcs (st_g st') = arcs (st_g st) \<or>
      arcs (st_g st') = insert (i, j) (arcs (st_g st))"
    by (simp add: arcs_after_def)
  with changed dyad have "changed_dyads_inner g (st_g st')"
    unfolding changed_dyads_inner_def by (elim disjE) auto
  with eff(3,4,5,6) zones flag show ?thesis
    by (simp add: conditional_invariant_def)
qed

lemma sweep_conditional_invariant:
  assumes "sweep E a k st = Inr st'"
    and "arg_useConditionalEstimation a"
    and "conditional_invariant g st"
  shows "conditional_invariant g st'"
  using assms(1,3)
proof (induction k arbitrary: st)
  case 0
  then show ?case by simp
next
  case (Suc k)
  from Suc.prems(1) obtain accepted st1 where
    p: "proposal E a st = Inr (accepted, st1)" and rest: "sweep E a k st1 = Inr st'"
    by (auto split: sum.splits)
  from Suc.IH [OF rest proposal_conditional_invariant [OF p assms(2) Suc.prems(2)]]
  show ?case .
qed

lemmas snowball_defs = snowball_graph_def snowball_args_def zone_distance_def
  last_tie_to_prev_wave_def isArcIgnoreDirection_def

lemma snowball_select: "select_conditional snowball_graph [0, 1] = Inr (0, 1, [])"
  by (simp add: snowball_defs sampler_run_defs)

lemma snowball_run:
  "basicSampler example_effects snowball_args 1 snowball_graph
     \<lparr>int_draws = [0, 1], unit_draws = [1 / 2]\<rparr> =
   Inr \<lparr>acceptance_rate = Fin 1, addChangeStats = [Fin 1], delChangeStats = [Fin 0],
         res_g = snowball_graph\<lparr>arcs := {(0, 1), (0, 2)}\<rparr>,
         res_rng = \<lparr>int_draws = [], unit_draws = []\<rparr>\<rparr>"
  by (simp add: snowball_defs sampler_run_defs upt_rec)

text \<open>
  Claim C7. Under conditional estimation, a dyad that the selection loop returns joins two
  distinct nodes of \<^verbatim>\<open>inner_nodes\<close> whose zones are below the largest zone and differ by
  at most one, and it is not a tie whose later-wave end has a single tie to its preceding
  wave. Hence, after any call of the sampler, every dyad whose arc was added or deleted joins
  two such inner nodes: no arc with an end in the outermost wave is changed.
\<close>

theorem conditional_estimation_constraints:
  "(select_conditional g ds = Inr (i, j, ds') \<longrightarrow>
      inner_node g i \<and> inner_node g j \<and> i \<noteq> j \<and> zone_distance g i j \<le> 1 \<and>
      \<not> last_tie_to_prev_wave g i j) \<and>
   (basicSampler E a sampler_m g r = Inr res \<and> arg_useConditionalEstimation a \<longrightarrow>
      changed_dyads_inner g (res_g res))"
proof (rule conjI; rule impI)
  assume "select_conditional g ds = Inr (i, j, ds')"
  then show "inner_node g i \<and> inner_node g j \<and> i \<noteq> j \<and> zone_distance g i j \<le> 1 \<and>
      \<not> last_tie_to_prev_wave g i j"
    by (rule select_conditional_result)
next
  assume run: "basicSampler E a sampler_m g r = Inr res \<and> arg_useConditionalEstimation a"
  then obtain st where sw: "sweep E a sampler_m (initial_state (arg_n a) g r) = Inr st"
    and res: "res_g res = st_g st"
    by (auto simp: basicSampler_def split: sum.splits)
  have "conditional_invariant g (initial_state (arg_n a) g r)"
    by (simp add: conditional_invariant_def initial_state_def changed_dyads_inner_def)
  from sweep_conditional_invariant [OF sw _ this] run res
  show "changed_dyads_inner g (res_g res)"
    by (simp add: conditional_invariant_def)
qed

theorem conditional_estimation_constraints_witness:
  "inner_node snowball_graph 0 \<and> inner_node snowball_graph 1 \<and>
   zone_distance snowball_graph 0 1 \<le> 1 \<and> \<not> last_tie_to_prev_wave snowball_graph 0 1 \<and>
   changed_dyads_inner snowball_graph (snowball_graph\<lparr>arcs := {(0, 1), (0, 2)}\<rparr>)"
proof -
  have "arg_useConditionalEstimation snowball_args"
    by (simp add: snowball_args_def)
  with conditional_estimation_constraints [of snowball_graph "[0, 1]" 0 1 "[]"
      example_effects snowball_args 1 "\<lparr>int_draws = [0, 1], unit_draws = [1 / 2]\<rparr>"
      "\<lparr>acceptance_rate = Fin 1, addChangeStats = [Fin 1], delChangeStats = [Fin 0],
         res_g = snowball_graph\<lparr>arcs := {(0, 1), (0, 2)}\<rparr>,
         res_rng = \<lparr>int_draws = [], unit_draws = []\<rparr>\<rparr>"]
    snowball_select snowball_run
  show ?thesis
    by simp
qed

section \<open>The row indices of the theta output file\<close>

lemma sint_row_index:
  fixes M1 :: uint_t
  assumes "t < unat M1" and "unat M1 \<le> 2 ^ 31"
  shows "sint (word_of_nat t - M1) = int t - int (unat M1)"
proof -
  define m where "m = unat M1"
  have M1: "M1 = word_of_nat m"
    by (simp add: m_def)
  from assms have bounds: "t < m" "m \<le> 2147483648"
    by (simp_all add: m_def)
  have "word_of_nat t - M1 = (word_of_int (int t - int m) :: uint_t)"
    by (simp add: M1)
  then have "sint (word_of_nat t - M1) = signed_take_bit (LENGTH(32) - 1) (int t - int m)"
    by (simp only: sint_sbintrunc')
  also have "\<dots> = int t - int m"
  proof (rule signed_take_bit_int_eq_self)
    from bounds show "- (2 ^ (LENGTH(32) - 1)) \<le> int t - int m"
      by simp
    from bounds show "int t - int m < 2 ^ (LENGTH(32) - 1)"
      by simp
  qed
  finally show ?thesis
    by (simp only: m_def)
qed

lemma unat_compute_M1:
  assumes "unat M1_steps * num_nodes g < 2 ^ 32"
  shows "unat (compute_M1 M1_steps g sampler_m) = (unat M1_steps * num_nodes g) div unat sampler_m"
proof -
  have "unat (M1_steps * word_of_nat (num_nodes g)) =
      (unat M1_steps * (num_nodes g mod 2 ^ 32)) mod 2 ^ 32"
    by (simp add: unat_word_ariths unat_of_nat)
  also have "\<dots> = (unat M1_steps * num_nodes g) mod 2 ^ 32"
    by (simp add: mod_mult_right_eq)
  also from assms have "\<dots> = unat M1_steps * num_nodes g"
    by simp
  finally show ?thesis
    by (simp add: compute_M1_def unat_div)
qed

lemma uint_counter:
  assumes "c < 2 ^ 32"
  shows "uint (word_of_nat c :: uint_t) = int c"
  using assms by (simp add: uint_nat unat_of_nat)

lemma for_loop_upt_invariant:
  assumes "for_loop body [0..<n] st = Inr st'"
    and "P 0 st"
    and "\<And>i s s'. i < n \<Longrightarrow> P i s \<Longrightarrow> body i s = Inr s' \<Longrightarrow> P (Suc i) s'"
  shows "P n st'"
  using assms
proof (induction n arbitrary: st')
  case 0
  then show ?case by simp
next
  case (Suc n)
  from Suc.prems(1) obtain s where
    first: "for_loop body [0..<n] st = Inr s" and last: "body n s = Inr st'"
    by (auto simp: for_loop_append split: sum.splits)
  have "P n s"
    using first Suc.prems(2)
  proof (rule Suc.IH)
    fix i s1 s2
    assume "i < n" "P i s1" "body i s1 = Inr s2"
    then show "P (Suc i) s2"
      using Suc.prems(3) [of i s1 s2] by simp
  qed
  with last show ?case
    using Suc.prems(3) [of n s st'] by simp
qed

lemma S_loop_rows:
  assumes "S_loop X g n M1 sampler_m ACA theta_outfile useIFD K r = Inr st"
  shows "map row_t (S_outfile st) =
         map row_t theta_outfile @ map (\<lambda>t. sint (word_of_nat t - M1)) [0..<unat M1]"
  using assms unfolding S_loop_def
proof (rule for_loop_upt_invariant
    [where P = "\<lambda>i s. map row_t (S_outfile s) =
       map row_t theta_outfile @ map (\<lambda>t. sint (word_of_nat t - M1)) [0..<i]"])
  show "map row_t (S_outfile \<lparr>S_theta = replicate n (Fin 0), S_D0 = replicate n (Fin 0),
      S_ifd_aux = Fin 0, S_outfile = theta_outfile, S_g = g, S_rng = r\<rparr>) =
    map row_t theta_outfile @ map (\<lambda>t. sint (word_of_nat t - M1)) [0..<0]"
    by simp
next
  fix i s s'
  assume "map row_t (S_outfile s) =
      map row_t theta_outfile @ map (\<lambda>t. sint (word_of_nat t - M1)) [0..<i]"
    and "S_iteration X n M1 sampler_m ACA useIFD K (ext_arcCorrection X g) i s = Inr s'"
  then show "map row_t (S_outfile s') =
      map row_t theta_outfile @ map (\<lambda>t. sint (word_of_nat t - M1)) [0..<Suc i]"
    by (auto simp: S_iteration_def Let_def split: sum.splits)
qed

lemma EE_inner_counter:
  assumes "EE_inner X n sampler_m ACA outputAllSteps useIFD K corr tinner st = Inr st'"
  shows "EE_t st' = EE_t st + 1"
    and "map row_t (EE_theta_outfile st') =
         map row_t (EE_theta_outfile st) @
         (if outputAllSteps \<or> tinner = 0 then [uint (EE_t st)] else [])"
  using assms by (auto simp: EE_inner_def Let_def split: sum.splits)

lemma adjust_D0_counter:
  assumes "adjust_D0 X n compC st = Inr st'"
  shows "EE_t st' = EE_t st" and "EE_theta_outfile st' = EE_theta_outfile st"
  using assms by (auto simp: adjust_D0_def split: if_splits)

lemma inner_loop_counter:
  assumes "for_loop (EE_inner X n sampler_m ACA outputAllSteps useIFD K corr) [0..<Minner] st =
      Inr st'"
  shows "EE_t st' = EE_t st + word_of_nat Minner \<and>
         map row_t (EE_theta_outfile st') =
         map row_t (EE_theta_outfile st) @ inner_rows outputAllSteps (EE_t st) Minner"
  using assms
proof (rule for_loop_upt_invariant
    [where P = "\<lambda>i s. EE_t s = EE_t st + word_of_nat i \<and>
       map row_t (EE_theta_outfile s) =
       map row_t (EE_theta_outfile st) @ inner_rows outputAllSteps (EE_t st) i"])
  show "EE_t st = EE_t st + word_of_nat 0 \<and>
    map row_t (EE_theta_outfile st) =
    map row_t (EE_theta_outfile st) @ inner_rows outputAllSteps (EE_t st) 0"
    by (simp add: inner_rows_def)
next
  fix i s s'
  assume inv: "EE_t s = EE_t st + word_of_nat i \<and>
      map row_t (EE_theta_outfile s) =
      map row_t (EE_theta_outfile st) @ inner_rows outputAllSteps (EE_t st) i"
    and step: "EE_inner X n sampler_m ACA outputAllSteps useIFD K corr i s = Inr s'"
  from EE_inner_counter [OF step] inv
  show "EE_t s' = EE_t st + word_of_nat (Suc i) \<and>
      map row_t (EE_theta_outfile s') =
      map row_t (EE_theta_outfile st) @ inner_rows outputAllSteps (EE_t st) (Suc i)"
    by (auto simp: inner_rows_def)
qed

lemma map_upt_split: "map f [0..<a + b] = map f [0..<a] @ map (\<lambda>c. f (a + c)) [0..<b]"
  by (induction b) simp_all

lemma outer_rows_Suc:
  "outer_rows outputAllSteps Minner touter @
     inner_rows outputAllSteps (word_of_nat (touter * Minner)) Minner =
   outer_rows outputAllSteps Minner (Suc touter)"
proof (cases outputAllSteps)
  case True
  have "map (\<lambda>c. uint (word_of_nat c :: uint_t)) [0..<touter * Minner + Minner] =
      map (\<lambda>c. uint (word_of_nat c :: uint_t)) [0..<touter * Minner] @
      map (\<lambda>c. uint (word_of_nat (touter * Minner + c) :: uint_t)) [0..<Minner]"
    by (rule map_upt_split)
  with True show ?thesis
    by (simp add: outer_rows_def inner_rows_def add.commute)
next
  case False
  then show ?thesis
    by (simp add: outer_rows_def inner_rows_def)
qed

lemma EE_outer_counter:
  assumes "EE_outer X n Minner sampler_m ACA compC outputAllSteps useIFD K corr touter st = Inr st'"
  shows "EE_t st' = EE_t st + word_of_nat (unat Minner) \<and>
         map row_t (EE_theta_outfile st') =
         map row_t (EE_theta_outfile st) @ inner_rows outputAllSteps (EE_t st) (unat Minner)"
proof -
  from assms obtain s where
    inner: "for_loop (EE_inner X n sampler_m ACA outputAllSteps useIFD K corr) [0..<unat Minner] st =
      Inr s"
    and adj: "adjust_D0 X n compC s = Inr st'"
    by (auto simp: EE_outer_def split: sum.splits)
  from inner_loop_counter [OF inner] adjust_D0_counter [OF adj] show ?thesis
    by simp
qed

lemma outer_loop_counter:
  assumes "for_loop (EE_outer X n Minner sampler_m ACA compC outputAllSteps useIFD K corr)
      [0..<Mouter] st = Inr st'"
    and "EE_t st = 0"
  shows "map row_t (EE_theta_outfile st') =
         map row_t (EE_theta_outfile st) @ outer_rows outputAllSteps (unat Minner) Mouter"
proof -
  have "EE_t st' = word_of_nat (Mouter * unat Minner) \<and>
      map row_t (EE_theta_outfile st') =
      map row_t (EE_theta_outfile st) @ outer_rows outputAllSteps (unat Minner) Mouter"
    using assms(1)
  proof (rule for_loop_upt_invariant
      [where P = "\<lambda>i s. EE_t s = word_of_nat (i * unat Minner) \<and>
         map row_t (EE_theta_outfile s) =
         map row_t (EE_theta_outfile st) @ outer_rows outputAllSteps (unat Minner) i"])
    from assms(2) show "EE_t st = word_of_nat (0 * unat Minner) \<and>
      map row_t (EE_theta_outfile st) =
      map row_t (EE_theta_outfile st) @ outer_rows outputAllSteps (unat Minner) 0"
      by (simp add: outer_rows_def)
  next
    fix i s s'
    assume inv: "EE_t s = word_of_nat (i * unat Minner) \<and>
        map row_t (EE_theta_outfile s) =
        map row_t (EE_theta_outfile st) @ outer_rows outputAllSteps (unat Minner) i"
      and step: "EE_outer X n Minner sampler_m ACA compC outputAllSteps useIFD K corr i s = Inr s'"
    from EE_outer_counter [OF step] inv
    have t: "EE_t s' = word_of_nat (i * unat Minner) + word_of_nat (unat Minner)"
      and rows: "map row_t (EE_theta_outfile s') =
        map row_t (EE_theta_outfile st) @ (outer_rows outputAllSteps (unat Minner) i @
          inner_rows outputAllSteps (word_of_nat (i * unat Minner)) (unat Minner))"
      by simp_all
    from t have "EE_t s' = word_of_nat (Suc i * unat Minner)"
      by (simp only: of_nat_add [symmetric] mult_Suc add.commute)
    with rows show "EE_t s' = word_of_nat (Suc i * unat Minner) \<and>
        map row_t (EE_theta_outfile s') =
        map row_t (EE_theta_outfile st) @ outer_rows outputAllSteps (unat Minner) (Suc i)"
      by (simp only: outer_rows_Suc simp_thms)
  qed
  then show ?thesis
    by simp
qed

lemma outer_rows_indices:
  assumes "Mouter * Minner \<le> 2 ^ 32"
  shows "outer_rows outputAllSteps Minner Mouter = EE_row_indices outputAllSteps Mouter Minner"
proof -
  have all: "uint (word_of_nat c :: uint_t) = int c" if "c < Mouter * Minner" for c
    using that assms by (intro uint_counter) simp
  have first: "uint (word_of_nat (k * Minner) :: uint_t) = int (k * Minner)"
    if "k < Mouter" and "Minner \<noteq> 0" for k
  proof (rule uint_counter)
    from that have "k * Minner < Mouter * Minner"
      by simp
    then show "k * Minner < 2 ^ 32"
      using assms by (rule less_le_trans)
  qed
  show ?thesis
    using all first by (auto simp: outer_rows_def EE_row_indices_def)
qed

lemmas estimate_defs = ee_estimate_def compute_M1_def algorithm_EE_def EE_outer_def
  adjust_D0_def adjusted_D0_def dle_def S_defs EE_defs sampler_run_defs upt_rec

lemma example_rows_all: "example_rows True = Inr [- 2, - 1, 0, 1, 2, 3]"
  by (simp add: example_rows_def estimate_defs)

text \<open>
  Claim C9, as the code has it. When \<open>M1_steps \<cdot> n\<close> does not overflow 32 bits,
  \<open>M\<^sub>1 = \<lfloor>M1_steps \<cdot> n / m\<rfloor>\<close>; when moreover \<open>M\<^sub>1 \<le> 2\<^sup>3\<^sup>1\<close>, Algorithm S writes exactly
  \<open>M\<^sub>1\<close> rows whose first columns are \<open>-M\<^sub>1, \<dots>, -1\<close> in order, although the index is
  computed as \<open>t - M\<^sub>1\<close> on unsigned integers and printed as a signed one. The rows of
  Algorithm EE follow; the counter \<open>t\<close> starts at 0 and counts the inner iterations, so
  (when it does not wrap) the first columns are \<open>0, 1, 2, \<dots>\<close> when every step is written
  and \<open>0, M, 2M, \<dots>\<close> for \<open>M\<close> inner iterations when only the first step of each outer
  iteration is written.
\<close>

theorem theta_row_indices:
  assumes "ee_estimate X g n sampler_m M1_steps Mouter Msteps ACA_S ACA_EE compC theta_outfile
      dzA_outfile outputAllSteps useIFDsampler ifd_K r = Inr st"
    and "unat M1_steps * num_nodes g < 2 ^ 32"
    and "unat M1_steps * num_nodes g div unat sampler_m \<le> 2 ^ 31"
    and "unat Mouter * unat Msteps \<le> 2 ^ 32"
  shows "unat (compute_M1 M1_steps g sampler_m) = unat M1_steps * num_nodes g div unat sampler_m \<and>
         map row_t (EE_theta_outfile st) =
           map row_t theta_outfile @
           map (\<lambda>t. int t - int (unat M1_steps * num_nodes g div unat sampler_m))
             [0..<unat M1_steps * num_nodes g div unat sampler_m] @
           EE_row_indices outputAllSteps (unat Mouter) (unat Msteps)"
proof -
  let ?M1 = "compute_M1 M1_steps g sampler_m"
  have M1: "unat ?M1 = unat M1_steps * num_nodes g div unat sampler_m"
    using assms(2) by (rule unat_compute_M1)
  from assms(1) obtain Dmean sst where
    S: "algorithm_S X g n ?M1 sampler_m ACA_S theta_outfile useIFDsampler ifd_K r =
      Inr (Dmean, sst)"
    and EE: "algorithm_EE X (S_g sst) n Mouter Msteps sampler_m ACA_EE compC Dmean (S_theta sst)
      (S_outfile sst) dzA_outfile outputAllSteps useIFDsampler ifd_K (S_rng sst) = Inr st"
    by (auto simp: ee_estimate_def split: if_splits sum.splits)
  from S have "S_loop X g n ?M1 sampler_m ACA_S theta_outfile useIFDsampler ifd_K r = Inr sst"
    by (auto simp: algorithm_S_def split: sum.splits)
  then have "map row_t (S_outfile sst) =
      map row_t theta_outfile @ map (\<lambda>t. sint (word_of_nat t - ?M1)) [0..<unat ?M1]"
    by (rule S_loop_rows)
  also have "map (\<lambda>t. sint (word_of_nat t - ?M1)) [0..<unat ?M1] =
      map (\<lambda>t. int t - int (unat ?M1)) [0..<unat ?M1]"
  proof (rule map_cong [OF refl])
    fix t
    assume "t \<in> set [0..<unat ?M1]"
    then have "t < unat ?M1"
      by simp
    moreover from assms(3) have "unat ?M1 \<le> 2 ^ 31"
      by (simp only: M1)
    ultimately show "sint (word_of_nat t - ?M1) = int t - int (unat ?M1)"
      by (rule sint_row_index)
  qed
  finally have S_rows: "map row_t (S_outfile sst) =
      map row_t theta_outfile @ map (\<lambda>t. int t - int (unat ?M1)) [0..<unat ?M1]" .
  have "map row_t (EE_theta_outfile st) =
      map row_t (EE_theta_outfile (EE_initial n Msteps Dmean (S_theta sst) (S_outfile sst)
        dzA_outfile (S_g sst) (S_rng sst))) @ outer_rows outputAllSteps (unat Msteps) (unat Mouter)"
    using EE unfolding algorithm_EE_def
    by (rule outer_loop_counter) (simp add: EE_initial_def)
  also have "outer_rows outputAllSteps (unat Msteps) (unat Mouter) =
      EE_row_indices outputAllSteps (unat Mouter) (unat Msteps)"
    using assms(4) by (rule outer_rows_indices)
  finally have "map row_t (EE_theta_outfile st) =
      map row_t (S_outfile sst) @ EE_row_indices outputAllSteps (unat Mouter) (unat Msteps)"
    by (simp add: EE_initial_def)
  with S_rows M1 show ?thesis
    by simp
qed

theorem theta_row_indices_witness:
  "example_rows True =
     Inr (map (\<lambda>t. int t - 2) [0..<2] @ EE_row_indices True 2 2)"
proof -
  let ?r = "\<lparr>int_draws = [0, 1, 0, 1, 0, 1, 0, 1, 0, 1, 0, 1],
            unit_draws = [1 / 2, 1 / 2, 1 / 2, 1 / 2, 1 / 2, 1 / 2]\<rparr>"
  from example_rows_all obtain st where
    run: "ee_estimate example_externals example_graph 1 1 1 2 2 (Fin 0) (Fin 0) (Fin (1 / 100))
          [] [] True False (Fin 0) ?r = Inr st"
    and rows: "example_rows True = Inr (map row_t (EE_theta_outfile st))"
    unfolding example_rows_def
    by (cases "ee_estimate example_externals example_graph 1 1 1 2 2 (Fin 0) (Fin 0)
          (Fin (1 / 100)) [] [] True False (Fin 0) ?r") simp_all
  have nodes: "num_nodes example_graph = 2"
    by (simp add: example_graph_def)
  from theta_row_indices [OF run] rows show ?thesis
    by (simp add: nodes)
qed

text \<open>
  The claim as stated fails when \<^verbatim>\<open>outputAllSteps\<close> is false: with two outer iterations of
  two inner iterations, the rows of Algorithm EE carry \<open>0\<close> and \<open>2\<close>.
\<close>

theorem theta_rows_of_outer_iterations: "example_rows False = Inr [- 2, - 1, 0, 2]"
  by (simp add: example_rows_def estimate_defs)

end
